theory Spec2Isabelle
  imports Main "HOL-Library.AList"
begin

section \<open>JavaScript values and library calls used by index.js\<close>

text \<open>
  \<^verbatim>\<open>s.split(sep)\<close> with a one-character separator: the segments between the
  separators, in order; a string without the separator (the empty string too) gives one
  segment, so the result is never empty.
\<close>

fun split_on :: "char \<Rightarrow> string \<Rightarrow> string list" where
  "split_on sep [] = [[]]"
| "split_on sep (x # xs) =
     (if x = sep then [] # split_on sep xs
      else (case split_on sep xs of
              [] \<Rightarrow> [[x]]
            | w # ws \<Rightarrow> (x # w) # ws))"

text \<open>\<^verbatim>\<open>n.toString()\<close> of a non-negative integer: its decimal digits.\<close>

definition digit :: "nat \<Rightarrow> char" where
  "digit d = ''0123456789'' ! d"

fun toString :: "nat \<Rightarrow> string" where
  "toString n =
     (if n < 10 then [digit n]
      else toString (n div 10) @ [digit (n mod 10)])"

declare toString.simps [simp del]

text \<open>
  \<^verbatim>\<open>a[i]\<close> on an array of strings is \<^verbatim>\<open>undefined\<close> past the end (\<open>None\<close>), and
  \<^verbatim>\<open>undefined\<close> concatenated into a string or printed with \<^verbatim>\<open>%s\<close> reads
  \<^verbatim>\<open>undefined\<close>; as an argument of a store command it is taken to be sent as that
  text too.
\<close>

fun js_nth :: "string list \<Rightarrow> nat \<Rightarrow> string option" where
  "js_nth [] i = None"
| "js_nth (x # xs) 0 = Some x"
| "js_nth (x # xs) (Suc i) = js_nth xs i"

definition str :: "string option \<Rightarrow> string" where
  "str v = (case v of None \<Rightarrow> ''undefined'' | Some s \<Rightarrow> s)"

text \<open>The arguments \<^verbatim>\<open>(err, res)\<close> of a Node callback.\<close>

datatype 'a reply = Err string | Ok 'a

section \<open>Data model\<close>

text \<open>
  A port binding and a container as the Docker listing gives them; the fields are the
  ones index.js reads. \<^verbatim>\<open>Id\<close> and \<^verbatim>\<open>Image\<close> carry a prime, the plain names
  being constants of HOL.
\<close>

record port =
  IP :: string
  PrivatePort :: nat
  PublicPort :: nat

record container =
  Id' :: string
  Image' :: string
  Status :: string
  Ports :: "port list"

record config =
  redisPort :: nat
  redisHost :: string
  dockerSocketPath :: string
  dockerHost :: "string option"
  dockerPort :: "nat option"
  hipacheBackend :: string
  webPorts :: string
  prefixMaps :: string
  exceptionMaps :: string

definition DEFAULT_CONFIG :: config where
  "DEFAULT_CONFIG =
     \<lparr> redisPort = 6376,
       redisHost = ''127.0.0.1'',
       dockerSocketPath = ''/var/run/docker.sock'',
       dockerHost = None,
       dockerPort = None,
       hipacheBackend = ''http://127.0.0.1'',
       webPorts = ''8080,80,3000'',
       prefixMaps = ''frozenridge:frozenridge.co,stridercd:stridercd.com'',
       exceptionMaps =
         ''frozenridge/gitbackups:gitbackups.com,frozenridge/gitbackups:www.gitbackups.com'' \<rparr>"

section \<open>findHttpPorts and parseMaps\<close>

text \<open>
  The loop of \<^verbatim>\<open>findHttpPorts\<close> over \<^verbatim>\<open>ports\<close>: the first binding with
  \<^verbatim>\<open>p.PublicPort !== 0 && webPorts.indexOf(privPort) !== -1\<close> returns its public port;
  \<open>None\<close> is the \<^verbatim>\<open>false\<close> returned after the loop.
\<close>

fun findHttpPorts_loop :: "string list \<Rightarrow> port list \<Rightarrow> nat option" where
  "findHttpPorts_loop wp [] = None"
| "findHttpPorts_loop wp (p # ps) =
     (if PublicPort p \<noteq> 0 \<and> toString (PrivatePort p) \<in> set wp then Some (PublicPort p)
      else findHttpPorts_loop wp ps)"

definition findHttpPorts :: "config \<Rightarrow> port list \<Rightarrow> nat option" where
  "findHttpPorts cfg ports = findHttpPorts_loop (split_on CHR '','' (webPorts cfg)) ports"

definition parseMaps :: "string \<Rightarrow> string list list" where
  "parseMaps m = map (split_on CHR '':'') (split_on CHR '','' m)"

text \<open>
  The configured web-port set: a binding's private port belongs to it when its decimal
  text is one of the comma-separated entries of \<^verbatim>\<open>config.webPorts\<close>.
\<close>

definition isWebPort :: "config \<Rightarrow> nat \<Rightarrow> bool" where
  "isWebPort cfg n = (toString n \<in> set (split_on CHR '','' (webPorts cfg)))"

section \<open>The key-value store\<close>

text \<open>
  The Redis keyspace as index.js uses it: every value is a list of strings. The keys are
  kept in the order of their creation, which is the order \<^verbatim>\<open>KEYS *\<close> enumerates
  them in here. \<^verbatim>\<open>DEL\<close> removes a key, \<^verbatim>\<open>RPUSH\<close> appends to the list at a key and
  creates the key when it is absent, \<^verbatim>\<open>LRANGE key 0 -1\<close> reads the whole list and is
  empty for an absent key.
\<close>

type_synonym store = "(string \<times> string list) list"

definition del :: "string \<Rightarrow> store \<Rightarrow> store" where
  "del key d = AList.delete key d"

definition lrange_all :: "string \<Rightarrow> store \<Rightarrow> string list" where
  "lrange_all key d = (case map_of d key of None \<Rightarrow> [] | Some xs \<Rightarrow> xs)"

definition rpush :: "string \<Rightarrow> string \<Rightarrow> store \<Rightarrow> store" where
  "rpush key v d = AList.update key (lrange_all key d @ [v]) d"

definition keys_all :: "store \<Rightarrow> string list" where
  "keys_all d = map fst d"

text \<open>
  The client: the keyspace, and which requests fail. A request that fails passes its
  error text to the callback and leaves the keyspace as it was. The three requests of
  index.js are the transaction of \<^verbatim>\<open>createRoute\<close> on one store key, the
  transaction holding \<^verbatim>\<open>keys('*')\<close>, and \<^verbatim>\<open>lrange\<close> of one key.
\<close>

datatype request = RouteTxn string | KeysTxn | Lrange string

record redis =
  db :: store
  fails :: "request \<Rightarrow> string option"

text \<open>The store key of a routing key: \<^verbatim>\<open>'frontend:' + k\<close>.\<close>

definition storeKey :: "string \<Rightarrow> string" where
  "storeKey k = ''frontend:'' @ k"

text \<open>
  \<^verbatim>\<open>redis.multi().del('frontend:' + k).rpush('frontend:' + k, k)
  .rpush('frontend:' + k, backend).exec(...)\<close>
\<close>

definition route_multi :: "redis \<Rightarrow> string \<Rightarrow> string \<Rightarrow> redis reply" where
  "route_multi r k backend =
     (case fails r (RouteTxn (storeKey k)) of
        Some err \<Rightarrow> Err err
      | None \<Rightarrow>
          Ok (r\<lparr>db := rpush (storeKey k) backend
                        (rpush (storeKey k) k
                          (del (storeKey k) (db r)))\<rparr>))"

text \<open>\<^verbatim>\<open>redis.multi().keys('*').exec(...)\<close>: on success \<^verbatim>\<open>keys[0]\<close> is the key list.\<close>

definition keys_multi :: "redis \<Rightarrow> string list reply" where
  "keys_multi r =
     (case fails r KeysTxn of Some err \<Rightarrow> Err err | None \<Rightarrow> Ok (keys_all (db r)))"

text \<open>\<^verbatim>\<open>redis.lrange(k, 0, -1, ...)\<close>\<close>

definition lrange :: "redis \<Rightarrow> string \<Rightarrow> string list reply" where
  "lrange r key =
     (case fails r (Lrange key) of Some err \<Rightarrow> Err err | None \<Rightarrow> Ok (lrange_all key (db r)))"

section \<open>What a command prints and how it ends\<close>

text \<open>
  A line of \<^verbatim>\<open>console.log\<close>, or a printed table: its head and its rows (a cell is
  \<open>None\<close> when the value pushed was \<^verbatim>\<open>undefined\<close>; such a table is never
  printed, see \<open>printable\<close> below). A command ends by calling its
  callback (\<open>Returned\<close>), by \<^verbatim>\<open>process.exit(n)\<close>, or by an exception nobody catches
  (\<open>Crash\<close>).
\<close>

datatype event = Log string | Table "string list" "string option list list"

datatype outcome = Returned | Exit nat | Crash

section \<open>sync\<close>

text \<open>
  \<^verbatim>\<open>createRoute(k, c)\<close>: without a port it logs the container id and exits with
  status 1 (\<open>Inl\<close> of the id); otherwise it pushes onto \<^verbatim>\<open>f\<close> the deferred write of
  \<^verbatim>\<open>k\<close> and the backend, kept here as that pair.
\<close>

definition createRoute ::
  "config \<Rightarrow> string \<Rightarrow> container \<Rightarrow> (string \<times> string) list \<Rightarrow> string + (string \<times> string) list"
where
  "createRoute cfg k c f =
     (case findHttpPorts cfg (Ports c) of
        None \<Rightarrow> Inl (Id' c)
      | Some port \<Rightarrow> Inr (f @ [(k, hipacheBackend cfg @ '':'' @ toString port)]))"

text \<open>
  Both map loops of the \<^verbatim>\<open>forEach\<close> callback scan the parsed map in order and stop at
  the first entry whose element 0 equals the text looked for: the exception loop returns
  from the callback there, the prefix loop breaks.
\<close>

fun firstEntry :: "string list list \<Rightarrow> string \<Rightarrow> string list option" where
  "firstEntry [] x = None"
| "firstEntry (e # es) x = (if js_nth e 0 = Some x then Some e else firstEntry es x)"

text \<open>The callback of \<^verbatim>\<open>res.forEach\<close>, for one container.\<close>

definition eachContainer ::
  "config \<Rightarrow> string list list \<Rightarrow> string list list \<Rightarrow> container \<Rightarrow> (string \<times> string) list
     \<Rightarrow> string + (string \<times> string) list"
where
  "eachContainer cfg prefixes exceptions c f =
     (case firstEntry exceptions (hd (split_on CHR '':'' (Image' c))) of
        Some e \<Rightarrow> createRoute cfg (str (js_nth e 1)) c f
      | None \<Rightarrow>
          (let img = split_on CHR ''/'' (Image' c) in
           if length img \<noteq> 2 then Inr f
           else
             (case firstEntry prefixes (img ! 0) of
                None \<Rightarrow> Inr f
              | Some e \<Rightarrow>
                  (let domain = str (js_nth e 1);
                       subdomain = hd (split_on CHR '':'' (img ! 1))
                   in
                     (case createRoute cfg (subdomain @ ''.'' @ domain) c f of
                        Inl x \<Rightarrow> Inl x
                      | Inr f1 \<Rightarrow>
                          if subdomain = ''www'' \<or> subdomain = ''web'' then
                            (case createRoute cfg (''www.'' @ domain) c f1 of
                               Inl x \<Rightarrow> Inl x
                             | Inr f2 \<Rightarrow> createRoute cfg domain c f2)
                          else Inr f1)))))"

fun forEach ::
  "config \<Rightarrow> string list list \<Rightarrow> string list list \<Rightarrow> container list \<Rightarrow> (string \<times> string) list
     \<Rightarrow> string + (string \<times> string) list"
where
  "forEach cfg prefixes exceptions [] f = Inr f"
| "forEach cfg prefixes exceptions (c # cs) f =
     (case eachContainer cfg prefixes exceptions c f of
        Inl x \<Rightarrow> Inl x
      | Inr f' \<Rightarrow> forEach cfg prefixes exceptions cs f')"

text \<open>
  \<^verbatim>\<open>async.series(f, ...)\<close>: the deferred writes run one after the other; the first
  error ends the process with status 1, the writes before it stay.
\<close>

fun async_series ::
  "(string \<times> string) list \<Rightarrow> redis \<Rightarrow> event list \<Rightarrow> outcome \<times> redis \<times> event list"
where
  "async_series [] r out = (Returned, r, out @ [Log ''hipache synced ok''])"
| "async_series ((k, backend) # f) r out =
     (case route_multi r k backend of
        Err err \<Rightarrow> (Exit 1, r, out @ [Log (''error syncing hipache: '' @ err)])
      | Ok r' \<Rightarrow> async_series f r' (out @ [Log (''mapped '' @ k @ '' to '' @ backend)]))"

text \<open>
  \<^verbatim>\<open>containerList(err, res)\<close> never reads \<^verbatim>\<open>err\<close>: after a failed listing
  \<^verbatim>\<open>res\<close> is no array and \<^verbatim>\<open>res.forEach\<close> throws.
\<close>

definition containerList :: "config \<Rightarrow> redis \<Rightarrow> container list reply \<Rightarrow> outcome \<times> redis \<times> event list" where
  "containerList cfg r listing =
     (case listing of
        Err err \<Rightarrow> (Crash, r, [])
      | Ok res \<Rightarrow>
          (case forEach cfg (parseMaps (prefixMaps cfg)) (parseMaps (exceptionMaps cfg)) res [] of
             Inl cid \<Rightarrow>
               (Exit 1, r,
                [Log (''error: couldn'' @ [CHR 0x27] @ ''t find valid public http port for container '' @ cid)])
           | Inr f \<Rightarrow>
               if length f = 0 then
                 (Exit 0, r, [Log ''no running images found to sync. start some?''])
               else async_series f r []))"

text \<open>\<^verbatim>\<open>sync(redis, docker, cb)\<close>, where \<open>docker\<close> is what the listing answers.\<close>

definition sync :: "config \<Rightarrow> redis \<Rightarrow> container list reply \<Rightarrow> outcome \<times> redis \<times> event list" where
  "sync cfg r docker = containerList cfg r docker"

text \<open>
  The routing keys the callback derives for one container, in order. With a web port
  the callback passes each of them to \<^verbatim>\<open>createRoute\<close>; without one its first call
  ends the process (lemma \<open>eachContainer_routeKeys\<close> below).
\<close>

definition routeKeys :: "string list list \<Rightarrow> string list list \<Rightarrow> container \<Rightarrow> string list" where
  "routeKeys prefixes exceptions c =
     (case firstEntry exceptions (hd (split_on CHR '':'' (Image' c))) of
        Some e \<Rightarrow> [str (js_nth e 1)]
      | None \<Rightarrow>
          (let img = split_on CHR ''/'' (Image' c) in
           if length img \<noteq> 2 then []
           else
             (case firstEntry prefixes (img ! 0) of
                None \<Rightarrow> []
              | Some e \<Rightarrow>
                  (let domain = str (js_nth e 1);
                       subdomain = hd (split_on CHR '':'' (img ! 1))
                   in
                     (subdomain @ ''.'' @ domain) #
                     (if subdomain = ''www'' \<or> subdomain = ''web''
                      then [''www.'' @ domain, domain] else [])))))"

text \<open>
  The keyspace after the deferred writes \<open>ws\<close> have run without an error, one after
  the other: each removes its store key and appends the two-element entry.
\<close>

definition written :: "(string \<times> string) list \<Rightarrow> store \<Rightarrow> store" where
  "written ws d =
     foldl (\<lambda>d w. del (storeKey (fst w)) d @ [(storeKey (fst w), [fst w, snd w])]) d ws"

text \<open>
  The exception pass as the specification words it, for comparison with the loop of the
  callback: every entry whose source equals the bare image reference contributes its
  target, in map order.
\<close>

definition spec_exceptionKeys :: "string list list \<Rightarrow> string \<Rightarrow> string list" where
  "spec_exceptionKeys exceptions bare =
     map (\<lambda>e. str (js_nth e 1)) (filter (\<lambda>e. js_nth e 0 = Some bare) exceptions)"

section \<open>show\<close>

text \<open>
  The loop of \<^verbatim>\<open>lookupContainers\<close> over the bindings of one container: the public port
  of the first binding with \<^verbatim>\<open>p.IP !== '' && webPorts.indexOf(...) !== -1\<close>, under
  which the container is stored before the \<^verbatim>\<open>break\<close>; \<open>None\<close> when the loop ends
  without storing.
\<close>

fun lookupContainers_loop :: "string list \<Rightarrow> port list \<Rightarrow> nat option" where
  "lookupContainers_loop wp [] = None"
| "lookupContainers_loop wp (p # ps) =
     (if IP p \<noteq> '''' \<and> toString (PrivatePort p) \<in> set wp then Some (PublicPort p)
      else lookupContainers_loop wp ps)"

definition indexedPort :: "config \<Rightarrow> port list \<Rightarrow> nat option" where
  "indexedPort cfg ports = lookupContainers_loop (split_on CHR '','' (webPorts cfg)) ports"

text \<open>
  \<^verbatim>\<open>_containers[p.PublicPort] = f\<close>: the property name is the decimal text of the port,
  and a later container overwrites an earlier one.
\<close>

definition lookupContainers :: "config \<Rightarrow> container list \<Rightarrow> (string \<rightharpoonup> container)" where
  "lookupContainers cfg res =
     foldl (\<lambda>idx f. case indexedPort cfg (Ports f) of
                       None \<Rightarrow> idx
                     | Some pub \<Rightarrow> idx(toString pub \<mapsto> f))
       Map.empty res"

text \<open>
  \<^verbatim>\<open>_containers\<close> is a plain object, so a name that \<^verbatim>\<open>Object.prototype\<close> defines
  reads as a value that is not \<^verbatim>\<open>undefined\<close> and has no \<^verbatim>\<open>Status\<close>.
\<close>

definition objectPrototypeKeys :: "string list" where
  "objectPrototypeKeys =
     [''constructor'', ''hasOwnProperty'', ''isPrototypeOf'', ''propertyIsEnumerable'',
      ''toLocaleString'', ''toString'', ''valueOf'', ''__proto__'', ''__defineGetter__'',
      ''__defineSetter__'', ''__lookupGetter__'', ''__lookupSetter__'']"

text \<open>
  The body of the \<^verbatim>\<open>lrange\<close> callback in \<^verbatim>\<open>lookupRoute\<close> once \<^verbatim>\<open>err\<close> is unset:
  the row it pushes, or \<open>None\<close> when \<^verbatim>\<open>res[1]\<close> is \<^verbatim>\<open>undefined\<close> and
  \<^verbatim>\<open>res[1].split\<close> throws a TypeError.
\<close>

definition lookupRoute_row ::
  "(string \<rightharpoonup> container) \<Rightarrow> string \<Rightarrow> string list \<Rightarrow> string option list option"
where
  "lookupRoute_row containers k res =
     (case js_nth res 1 of
        None \<Rightarrow> None
      | Some backend \<Rightarrow>
          (let forwardPort = str (js_nth (split_on CHR '':'' backend) 2) in
           Some [Some k, Some backend,
                 (case containers forwardPort of
                    Some container \<Rightarrow> Some (Status container)
                  | None \<Rightarrow>
                      if forwardPort \<in> set objectPrototypeKeys then None
                      else Some ''! Down !'')]))"

definition routes_head :: "string list" where
  "routes_head = [''Route'', ''Forward'', ''Container'']"

text \<open>
  \<^verbatim>\<open>routes.toString()\<close> in \<^verbatim>\<open>done\<close> renders every cell; a cell that is
  \<^verbatim>\<open>undefined\<close> makes it throw, so only a table whose cells are all defined is
  printed.
\<close>

definition printable :: "string option list list \<Rightarrow> bool" where
  "printable routes = list_all (list_all (\<lambda>cell. cell \<noteq> None)) routes"

text \<open>
  \<^verbatim>\<open>async.map(keys[0], lookupRoute, done)\<close>: every \<^verbatim>\<open>lrange\<close> is sent at once and
  the replies come back in the order sent. The first reply with an error calls
  \<^verbatim>\<open>done\<close> at once, which prints the table as it stands and calls the callback of
  show without an error; \<^verbatim>\<open>done\<close> is called once only (\<open>called\<close>), the later
  replies still run their callbacks. When every reply has come without an error,
  \<^verbatim>\<open>done\<close> prints the full table. Where \<^verbatim>\<open>done\<close> cannot print the table, the
  exception ends the process with nothing printed.
\<close>

fun async_map ::
  "redis \<Rightarrow> (string \<rightharpoonup> container) \<Rightarrow> string list \<Rightarrow> string option list list \<Rightarrow> bool \<Rightarrow> event list
     \<Rightarrow> outcome \<times> event list"
where
  "async_map r containers [] routes called out =
     (if called then (Returned, out)
      else if printable routes then (Returned, out @ [Table routes_head routes])
      else (Crash, out))"
| "async_map r containers (k # ks) routes called out =
     (case lrange r k of
        Err err \<Rightarrow>
          if called then async_map r containers ks routes True out
          else if printable routes then
            async_map r containers ks routes True (out @ [Table routes_head routes])
          else (Crash, out)
      | Ok res \<Rightarrow>
          (case lookupRoute_row containers k res of
             None \<Rightarrow> (Crash, out)
           | Some row \<Rightarrow> async_map r containers ks (routes @ [row]) called out))"

text \<open>
  \<^verbatim>\<open>show(redis, docker, cb)\<close>: \<^verbatim>\<open>lookupContainers\<close> throws the error of a failed
  listing; \<^verbatim>\<open>lookupRoutes\<close> does not read the error of the key scan, and
  \<^verbatim>\<open>keys[0]\<close> throws when there is no reply.
\<close>

definition show' :: "config \<Rightarrow> redis \<Rightarrow> container list reply \<Rightarrow> outcome \<times> event list" where
  "show' cfg r docker =
     (case docker of
        Err err \<Rightarrow> (Crash, [])
      | Ok res \<Rightarrow>
          (case keys_multi r of
             Err err \<Rightarrow> (Crash, [])
           | Ok keys \<Rightarrow> async_map r (lookupContainers cfg res) keys [] False []))"

section \<open>The command line\<close>

definition usage :: "event list" where
  "usage =
     [Log ''Usage: dockerfu [OPTIONS] <sync|show> <...>'',
      Table [''option'', ''description'']
        (map (map Some)
          [[''--config FILE'',
            ''Load dockerfu config from FILE (see https://github.com/dominictarr/rc)''],
           [''--dockerSocketPath PATH'',
            ''Docker UNIX domain socket path [default: /var/run/docker.sock]''],
           [''--dockerHost HOSTNAME'', ''Docker TCP Host''],
           [''--dockerPort PORT'', ''Docker TCP Port''],
           [''--exceptionMaps IMAGE:FQDN[,IMAGE:FQDN,...]'',
            ''List of docker images -> FQDN map exceptions''],
           [''--prefixMaps PREFIX:DOMAIN[,PREFIX:DOMAIN,...]'',
            ''List of docker image prefix -> domain maps''],
           [''--redisHost HOSTNAME'', ''Redis hostname [default: localhost]''],
           [''--redisPort PORT'', ''Redis port [default: 6376]''],
           [''--webPorts PORT[,PORT,...]'',
            ''List of Web ports in containers [default: 80,8080,3000]'']])]"

text \<open>
  \<^verbatim>\<open>async.series(operations, ...)\<close> over the commands named on the command line, in
  order; other words add no operation. A command that returns lets the next one start;
  \<^verbatim>\<open>process.exit\<close> or a crash inside a command ends the process there. After the last
  command \<^verbatim>\<open>r.quit()\<close> lets the process end with status 0. The \<open>n\<close>-th listing
  request of the run is answered by \<open>docker n\<close>. Replies to show that are still on
  their way when its callback is called are handled before the next command gets its
  answers, so a crash in one of them ends the run at show.
\<close>

fun operations ::
  "config \<Rightarrow> string list \<Rightarrow> (nat \<Rightarrow> container list reply) \<Rightarrow> nat \<Rightarrow> redis \<Rightarrow> event list
     \<Rightarrow> outcome \<times> redis \<times> event list"
where
  "operations cfg [] docker n r out = (Exit 0, r, out)"
| "operations cfg (op # ops) docker n r out =
     (if op = ''sync'' then
        (case sync cfg r (docker n) of
           (Returned, r', out') \<Rightarrow> operations cfg ops docker (Suc n) r' (out @ out')
         | (ended, r', out') \<Rightarrow> (ended, r', out @ out'))
      else if op = ''show'' then
        (case show' cfg r (docker n) of
           (Returned, out') \<Rightarrow> operations cfg ops docker (Suc n) r (out @ out')
         | (ended, out') \<Rightarrow> (ended, r, out @ out'))
      else operations cfg ops docker n r out)"

text \<open>
  The script body under \<^verbatim>\<open>if (!module.parent)\<close>, with \<open>argv\<close> for \<^verbatim>\<open>argv._\<close>.
  An empty command line prints the usage and exits with status 1. The second test,
  \<^verbatim>\<open>!argv._[0] in ['sync', 'show']\<close>, asks whether \<^verbatim>\<open>true\<close> or \<^verbatim>\<open>false\<close> is an
  index of a two-element array, which it never is.
\<close>

definition main :: "config \<Rightarrow> string list \<Rightarrow> (nat \<Rightarrow> container list reply) \<Rightarrow> redis \<Rightarrow> outcome \<times> redis \<times> event list" where
  "main cfg argv docker r =
     (if length argv < 1 then (Exit 1, r, usage)
      else operations cfg argv docker 0 r [])"

section \<open>Port selection\<close>

lemma findHttpPorts_loop_None:
  "findHttpPorts_loop wp ps = None \<longleftrightarrow>
     list_all (\<lambda>p. \<not> (PublicPort p \<noteq> 0 \<and> toString (PrivatePort p) \<in> set wp)) ps"
  by (induction ps) auto

lemma findHttpPorts_loop_Some:
  "findHttpPorts_loop wp ps = Some pub \<longleftrightarrow>
     (\<exists>i<length ps.
        (PublicPort (ps ! i) \<noteq> 0 \<and> toString (PrivatePort (ps ! i)) \<in> set wp) \<and>
        (\<forall>j<i. \<not> (PublicPort (ps ! j) \<noteq> 0 \<and> toString (PrivatePort (ps ! j)) \<in> set wp)) \<and>
        pub = PublicPort (ps ! i))"
proof (induction ps)
  case Nil
  show ?case by simp
next
  case (Cons p ps)
  let ?m = "\<lambda>q. PublicPort q \<noteq> 0 \<and> toString (PrivatePort q) \<in> set wp"
  show ?case
  proof (cases "?m p")
    case True
    have "findHttpPorts_loop wp (p # ps) = Some pub \<longleftrightarrow> pub = PublicPort p"
      using True by auto
    moreover have "(\<exists>i<length (p # ps). ?m ((p # ps) ! i) \<and>
        (\<forall>j<i. \<not> ?m ((p # ps) ! j)) \<and> pub = PublicPort ((p # ps) ! i)) \<longleftrightarrow>
        pub = PublicPort p"
    proof
      assume "\<exists>i<length (p # ps). ?m ((p # ps) ! i) \<and>
        (\<forall>j<i. \<not> ?m ((p # ps) ! j)) \<and> pub = PublicPort ((p # ps) ! i)"
      then obtain i where i: "i < length (p # ps)" "\<forall>j<i. \<not> ?m ((p # ps) ! j)"
        "pub = PublicPort ((p # ps) ! i)" by blast
      have "i = 0"
      proof (rule ccontr)
        assume "i \<noteq> 0"
        then have "0 < i" by simp
        with i(2) have "\<not> ?m ((p # ps) ! 0)" by blast
        with True show False by simp
      qed
      with i(3) show "pub = PublicPort p" by simp
    next
      assume "pub = PublicPort p"
      with True show "\<exists>i<length (p # ps). ?m ((p # ps) ! i) \<and>
        (\<forall>j<i. \<not> ?m ((p # ps) ! j)) \<and> pub = PublicPort ((p # ps) ! i)"
        by (intro exI [of _ 0]) simp
    qed
    ultimately show ?thesis by blast
  next
    case False
    have step: "findHttpPorts_loop wp (p # ps) = findHttpPorts_loop wp ps"
      using False by auto
    have "(\<exists>i<length (p # ps). ?m ((p # ps) ! i) \<and>
        (\<forall>j<i. \<not> ?m ((p # ps) ! j)) \<and> pub = PublicPort ((p # ps) ! i)) \<longleftrightarrow>
        (\<exists>i<length ps. ?m (ps ! i) \<and> (\<forall>j<i. \<not> ?m (ps ! j)) \<and> pub = PublicPort (ps ! i))"
    proof
      assume "\<exists>i<length (p # ps). ?m ((p # ps) ! i) \<and>
        (\<forall>j<i. \<not> ?m ((p # ps) ! j)) \<and> pub = PublicPort ((p # ps) ! i)"
      then obtain i where i: "i < length (p # ps)" "?m ((p # ps) ! i)"
        "\<forall>j<i. \<not> ?m ((p # ps) ! j)" "pub = PublicPort ((p # ps) ! i)" by blast
      from i(2) False obtain k where k: "i = Suc k" by (cases i) auto
      have "\<forall>j<k. \<not> ?m (ps ! j)"
      proof (intro allI impI)
        fix j assume "j < k"
        then have "Suc j < i" using k by simp
        with i(3) have "\<not> ?m ((p # ps) ! Suc j)" by blast
        then show "\<not> ?m (ps ! j)" by simp
      qed
      with i k show "\<exists>i<length ps. ?m (ps ! i) \<and> (\<forall>j<i. \<not> ?m (ps ! j)) \<and>
        pub = PublicPort (ps ! i)"
        by (intro exI [of _ k]) simp
    next
      assume "\<exists>i<length ps. ?m (ps ! i) \<and> (\<forall>j<i. \<not> ?m (ps ! j)) \<and>
        pub = PublicPort (ps ! i)"
      then obtain k where k: "k < length ps" "?m (ps ! k)" "\<forall>j<k. \<not> ?m (ps ! j)"
        "pub = PublicPort (ps ! k)" by blast
      have "\<forall>j<Suc k. \<not> ?m ((p # ps) ! j)"
      proof (intro allI impI)
        fix j assume j: "j < Suc k"
        show "\<not> ?m ((p # ps) ! j)"
        proof (cases j)
          case 0
          with False show ?thesis by simp
        next
          case (Suc j')
          with j have "j' < k" by simp
          with k(3) have "\<not> ?m (ps ! j')" by blast
          with Suc show ?thesis by simp
        qed
      qed
      with k show "\<exists>i<length (p # ps). ?m ((p # ps) ! i) \<and>
        (\<forall>j<i. \<not> ?m ((p # ps) ! j)) \<and> pub = PublicPort ((p # ps) ! i)"
        by (intro exI [of _ "Suc k"]) simp
    qed
    with step Cons.IH show ?thesis by simp
  qed
qed

text \<open>
  Claim C4. For every list of port bindings, \<^verbatim>\<open>findHttpPorts\<close> (the spec's
  selectPublicPort) returns the public port of the first binding, in the given order,
  whose private port is in the configured web-port set and whose public port is nonzero,
  and it returns \<^verbatim>\<open>false\<close> (\<open>None\<close>) exactly when no binding satisfies both conditions.
\<close>

theorem findHttpPorts_first_match:
  "(findHttpPorts cfg ports = Some pub \<longleftrightarrow>
      (\<exists>i<length ports.
         (PublicPort (ports ! i) \<noteq> 0 \<and> isWebPort cfg (PrivatePort (ports ! i))) \<and>
         (\<forall>j<i. \<not> (PublicPort (ports ! j) \<noteq> 0 \<and> isWebPort cfg (PrivatePort (ports ! j)))) \<and>
         pub = PublicPort (ports ! i))) \<and>
   (findHttpPorts cfg ports = None \<longleftrightarrow>
      (\<forall>p \<in> set ports. \<not> (PublicPort p \<noteq> 0 \<and> isWebPort cfg (PrivatePort p))))"
  unfolding findHttpPorts_def isWebPort_def
  by (simp only: findHttpPorts_loop_Some findHttpPorts_loop_None list_all_iff)

theorem findHttpPorts_first_match_witness:
  "findHttpPorts DEFAULT_CONFIG
     [\<lparr>IP = ''0.0.0.0'', PrivatePort = 22, PublicPort = 2222\<rparr>,
      \<lparr>IP = '''', PrivatePort = 80, PublicPort = 0\<rparr>,
      \<lparr>IP = ''0.0.0.0'', PrivatePort = 8080, PublicPort = 9001\<rparr>,
      \<lparr>IP = ''0.0.0.0'', PrivatePort = 3000, PublicPort = 9002\<rparr>] = Some 9001 \<and>
   findHttpPorts DEFAULT_CONFIG [\<lparr>IP = '''', PrivatePort = 80, PublicPort = 0\<rparr>] = None"
proof -
  let ?ps = "[\<lparr>IP = ''0.0.0.0'', PrivatePort = 22, PublicPort = 2222\<rparr>,
      \<lparr>IP = '''', PrivatePort = 80, PublicPort = 0\<rparr>,
      \<lparr>IP = ''0.0.0.0'', PrivatePort = 8080, PublicPort = 9001\<rparr>,
      \<lparr>IP = ''0.0.0.0'', PrivatePort = 3000, PublicPort = 9002\<rparr>]"
  have w: "isWebPort DEFAULT_CONFIG 8080" "isWebPort DEFAULT_CONFIG 80"
    "\<not> isWebPort DEFAULT_CONFIG 22"
    by (simp_all add: isWebPort_def DEFAULT_CONFIG_def toString.simps digit_def)
  have "\<forall>j<2. \<not> (PublicPort (?ps ! j) \<noteq> 0 \<and> isWebPort DEFAULT_CONFIG (PrivatePort (?ps ! j)))"
  proof (intro allI impI)
    fix j :: nat assume "j < 2"
    then consider "j = 0" | "j = 1" by linarith
    then show "\<not> (PublicPort (?ps ! j) \<noteq> 0 \<and> isWebPort DEFAULT_CONFIG (PrivatePort (?ps ! j)))"
      using w by cases simp_all
  qed
  then have "\<exists>i<length ?ps.
      (PublicPort (?ps ! i) \<noteq> 0 \<and> isWebPort DEFAULT_CONFIG (PrivatePort (?ps ! i))) \<and>
      (\<forall>j<i. \<not> (PublicPort (?ps ! j) \<noteq> 0 \<and> isWebPort DEFAULT_CONFIG (PrivatePort (?ps ! j)))) \<and>
      9001 = PublicPort (?ps ! i)"
    using w by (intro exI [of _ 2]) simp
  then have "findHttpPorts DEFAULT_CONFIG ?ps = Some 9001"
    using findHttpPorts_first_match [of DEFAULT_CONFIG ?ps 9001] by blast
  moreover have "findHttpPorts DEFAULT_CONFIG [\<lparr>IP = '''', PrivatePort = 80, PublicPort = 0\<rparr>] = None"
    using findHttpPorts_first_match
      [of DEFAULT_CONFIG "[\<lparr>IP = '''', PrivatePort = 80, PublicPort = 0\<rparr>]" 0]
    by simp
  ultimately show ?thesis by simp
qed

section \<open>Strings and map scans\<close>

lemma split_on_not_Nil: "split_on sep s \<noteq> []"
  by (induction s) (auto split: list.splits)

lemma split_on_no_sep: "sep \<notin> set s \<Longrightarrow> split_on sep s = [s]"
  by (induction s) auto

lemma split_on_first: "sep \<notin> set a \<Longrightarrow> split_on sep (a @ sep # b) = a # split_on sep b"
  by (induction a) auto

lemma firstEntry_first:
  "\<forall>e' \<in> set pre. js_nth e' 0 \<noteq> Some x \<Longrightarrow> js_nth e 0 = Some x \<Longrightarrow>
     firstEntry (pre @ e # post) x = Some e"
  by (induction pre) auto

lemma firstEntry_None: "firstEntry es x = None \<longleftrightarrow> (\<forall>e \<in> set es. js_nth e 0 \<noteq> Some x)"
  by (induction es) auto

lemma eachContainer_routeKeys:
  "eachContainer cfg prefixes exceptions c f =
     (if routeKeys prefixes exceptions c = [] then Inr f
      else (case findHttpPorts cfg (Ports c) of
              None \<Rightarrow> Inl (Id' c)
            | Some port \<Rightarrow>
                Inr (f @ map (\<lambda>k. (k, hipacheBackend cfg @ '':'' @ toString port))
                          (routeKeys prefixes exceptions c))))"
  by (auto simp: eachContainer_def routeKeys_def createRoute_def Let_def
      split: option.splits)


section \<open>Routing keys\<close>

lemma image_segments:
  assumes "CHR ''/'' \<notin> set prefix" "CHR ''/'' \<notin> set sub" "CHR ''/'' \<notin> set tag"
  shows "split_on CHR ''/'' (prefix @ ''/'' @ sub @ tag) = [prefix, sub @ tag]"
proof -
  have "CHR ''/'' \<notin> set (sub @ tag)" using assms by simp
  then have "split_on CHR ''/'' (sub @ tag) = [sub @ tag]" by (rule split_on_no_sep)
  with split_on_first [OF assms(1), of "sub @ tag"] show ?thesis by simp
qed

lemma tag_stripped:
  assumes "CHR '':'' \<notin> set sub" "tag = [] \<or> (\<exists>t. tag = CHR '':'' # t)"
  shows "hd (split_on CHR '':'' (sub @ tag)) = sub"
  using assms(2)
proof
  assume "tag = []"
  with assms(1) show ?thesis by (simp add: split_on_no_sep)
next
  assume "\<exists>t. tag = CHR '':'' # t"
  then obtain t where "tag = CHR '':'' # t" by blast
  with assms(1) show ?thesis by (simp add: split_on_first)
qed

lemma eachContainer_prefix_keys:
  assumes form: "Image' c = prefix @ ''/'' @ sub @ tag"
    and tag: "tag = [] \<or> (\<exists>t. tag = CHR '':'' # t)"
    and seps: "CHR ''/'' \<notin> set prefix" "CHR ''/'' \<notin> set sub" "CHR ''/'' \<notin> set tag"
      "CHR '':'' \<notin> set sub"
    and no_exception:
      "\<forall>e \<in> set exceptions. js_nth e 0 \<noteq> Some (hd (split_on CHR '':'' (Image' c)))"
    and first_prefix: "prefixes = pre @ e # post"
      "\<forall>e' \<in> set pre. js_nth e' 0 \<noteq> Some prefix" "js_nth e 0 = Some prefix"
      "js_nth e 1 = Some domain"
  shows "eachContainer cfg prefixes exceptions c f =
     (case findHttpPorts cfg (Ports c) of
        None \<Rightarrow> Inl (Id' c)
      | Some port \<Rightarrow>
          Inr (f @ map (\<lambda>k. (k, hipacheBackend cfg @ '':'' @ toString port))
                 (if sub = ''www'' \<or> sub = ''web''
                  then [sub @ ''.'' @ domain, ''www.'' @ domain, domain]
                  else [sub @ ''.'' @ domain])))"
proof -
  have ex: "firstEntry exceptions (hd (split_on CHR '':'' (Image' c))) = None"
    using no_exception by (simp add: firstEntry_None)
  have img: "split_on CHR ''/'' (Image' c) = [prefix, sub @ tag]"
    unfolding form using seps(1-3) by (rule image_segments)
  have pm: "firstEntry prefixes prefix = Some e"
    unfolding first_prefix(1) using first_prefix(2,3) by (rule firstEntry_first)
  have sub: "hd (split_on CHR '':'' (sub @ tag)) = sub"
    using seps(4) tag by (rule tag_stripped)
  have dom: "str (js_nth e (Suc 0)) = domain"
    using first_prefix(4) by (simp add: str_def)
  have keys: "routeKeys prefixes exceptions c =
      (sub @ ''.'' @ domain) #
      (if sub = ''www'' \<or> sub = ''web'' then [''www.'' @ domain, domain] else [])"
    by (simp add: routeKeys_def ex img pm sub dom Let_def)
  show ?thesis
    by (simp add: eachContainer_routeKeys keys split: option.splits)
qed

lemma forEach_append:
  "forEach cfg P E (xs @ ys) f =
     (case forEach cfg P E xs f of Inl x \<Rightarrow> Inl x | Inr g \<Rightarrow> forEach cfg P E ys g)"
  by (induction xs arbitrary: f) (auto split: sum.splits)

lemma eachContainer_acc:
  "eachContainer cfg P E c f =
     (case eachContainer cfg P E c [] of Inl x \<Rightarrow> Inl x | Inr t \<Rightarrow> Inr (f @ t))"
  by (simp add: eachContainer_routeKeys split: option.splits)

lemma forEach_acc:
  "forEach cfg P E cs f =
     (case forEach cfg P E cs [] of Inl x \<Rightarrow> Inl x | Inr t \<Rightarrow> Inr (f @ t))"
proof (induction cs arbitrary: f)
  case Nil
  show ?case by simp
next
  case (Cons c cs)
  show ?case
  proof (cases "eachContainer cfg P E c []")
    case (Inl x)
    then show ?thesis by (simp add: eachContainer_acc [of cfg P E c f])
  next
    case (Inr t)
    then have "eachContainer cfg P E c f = Inr (f @ t)"
      by (simp add: eachContainer_acc [of cfg P E c f])
    with Inr show ?thesis
      by (simp add: Cons.IH [of "f @ t"] Cons.IH [of t] split: sum.splits)
  qed
qed

lemma forEach_around:
  "forEach cfg P E (before @ c # after) [] =
     (case forEach cfg P E before [] of
        Inl x \<Rightarrow> Inl x
      | Inr g \<Rightarrow>
          (case eachContainer cfg P E c [] of
             Inl x \<Rightarrow> Inl x
           | Inr ws \<Rightarrow>
               (case forEach cfg P E after [] of
                  Inl x \<Rightarrow> Inl x
                | Inr t \<Rightarrow> Inr (g @ ws @ t))))"
proof (cases "forEach cfg P E before []")
  case (Inl x)
  then show ?thesis by (simp add: forEach_append)
next
  case g: (Inr g)
  show ?thesis
  proof (cases "eachContainer cfg P E c []")
    case (Inl x)
    then have "eachContainer cfg P E c g = Inl x"
      by (simp add: eachContainer_acc [of cfg P E c g])
    with g Inl show ?thesis by (simp add: forEach_append)
  next
    case ws: (Inr ws)
    then have "eachContainer cfg P E c g = Inr (g @ ws)"
      by (simp add: eachContainer_acc [of cfg P E c g])
    with g ws show ?thesis
      by (simp add: forEach_append forEach_acc [of cfg P E after "g @ ws"] split: sum.splits)
  qed
qed

text \<open>
  Claim C5. Let a container of the snapshot have an image reference \<open>prefix/sub[:tag]\<close>
  that no exception entry matches, where the first prefix-map entry whose source is
  \<open>prefix\<close> has the target \<open>domain\<close>. When the container has a web port, the
  callback of sync appends for it exactly the writes for \<open>sub.domain\<close>,
  \<open>www.domain\<close> and \<open>domain\<close>, in this order, if \<open>sub\<close> is \<open>www\<close> or \<open>web\<close>,
  and exactly the write for \<open>sub.domain\<close> for any other \<open>sub\<close>; and sync runs
  exactly these writes for it, after those of the containers before it and before those
  of the containers after it. Without a web port, here or at another container with
  keys, sync ends the process with status 1 and writes nothing.
\<close>

theorem prefix_route_keys:
  assumes form: "Image' c = prefix @ ''/'' @ sub @ tag"
    and tag: "tag = [] \<or> (\<exists>t. tag = CHR '':'' # t)"
    and seps: "CHR ''/'' \<notin> set prefix" "CHR ''/'' \<notin> set sub" "CHR ''/'' \<notin> set tag"
      "CHR '':'' \<notin> set sub"
    and no_exception:
      "\<forall>e \<in> set (parseMaps (exceptionMaps cfg)).
         js_nth e 0 \<noteq> Some (hd (split_on CHR '':'' (Image' c)))"
    and first_prefix: "parseMaps (prefixMaps cfg) = pre @ e # post"
      "\<forall>e' \<in> set pre. js_nth e' 0 \<noteq> Some prefix" "js_nth e 0 = Some prefix"
      "js_nth e 1 = Some domain"
  shows "eachContainer cfg (parseMaps (prefixMaps cfg)) (parseMaps (exceptionMaps cfg)) c f =
     (case findHttpPorts cfg (Ports c) of
        None \<Rightarrow> Inl (Id' c)
      | Some port \<Rightarrow>
          Inr (f @ map (\<lambda>k. (k, hipacheBackend cfg @ '':'' @ toString port))
                 (if sub = ''www'' \<or> sub = ''web''
                  then [sub @ ''.'' @ domain, ''www.'' @ domain, domain]
                  else [sub @ ''.'' @ domain]))) \<and>
   sync cfg r (Ok (before @ c # after)) =
     (case forEach cfg (parseMaps (prefixMaps cfg)) (parseMaps (exceptionMaps cfg)) before [] of
        Inl cid \<Rightarrow>
          (Exit 1, r,
           [Log (''error: couldn'' @ [CHR 0x27] @
                 ''t find valid public http port for container '' @ cid)])
      | Inr g \<Rightarrow>
          (case findHttpPorts cfg (Ports c) of
             None \<Rightarrow>
               (Exit 1, r,
                [Log (''error: couldn'' @ [CHR 0x27] @
                      ''t find valid public http port for container '' @ Id' c)])
           | Some port \<Rightarrow>
               (case forEach cfg (parseMaps (prefixMaps cfg)) (parseMaps (exceptionMaps cfg))
                       after [] of
                  Inl cid \<Rightarrow>
                    (Exit 1, r,
                     [Log (''error: couldn'' @ [CHR 0x27] @
                           ''t find valid public http port for container '' @ cid)])
                | Inr t \<Rightarrow>
                    async_series
                      (g @
                       map (\<lambda>k. (k, hipacheBackend cfg @ '':'' @ toString port))
                         (if sub = ''www'' \<or> sub = ''web''
                          then [sub @ ''.'' @ domain, ''www.'' @ domain, domain]
                          else [sub @ ''.'' @ domain]) @
                       t)
                      r [])))"
proof (rule conjI)
  let ?P = "parseMaps (prefixMaps cfg)"
  let ?E = "parseMaps (exceptionMaps cfg)"
  let ?keys = "if sub = ''www'' \<or> sub = ''web''
      then [sub @ ''.'' @ domain, ''www.'' @ domain, domain] else [sub @ ''.'' @ domain]"
  have each: "\<And>f. eachContainer cfg ?P ?E c f =
     (case findHttpPorts cfg (Ports c) of
        None \<Rightarrow> Inl (Id' c)
      | Some port \<Rightarrow>
          Inr (f @ map (\<lambda>k. (k, hipacheBackend cfg @ '':'' @ toString port)) ?keys))"
    using form tag seps no_exception first_prefix by (rule eachContainer_prefix_keys)
  show "eachContainer cfg ?P ?E c f =
     (case findHttpPorts cfg (Ports c) of
        None \<Rightarrow> Inl (Id' c)
      | Some port \<Rightarrow>
          Inr (f @ map (\<lambda>k. (k, hipacheBackend cfg @ '':'' @ toString port)) ?keys))"
    by (rule each)
  have ne: "?keys \<noteq> []" by simp
  show "sync cfg r (Ok (before @ c # after)) =
     (case forEach cfg ?P ?E before [] of
        Inl cid \<Rightarrow>
          (Exit 1, r,
           [Log (''error: couldn'' @ [CHR 0x27] @
                 ''t find valid public http port for container '' @ cid)])
      | Inr g \<Rightarrow>
          (case findHttpPorts cfg (Ports c) of
             None \<Rightarrow>
               (Exit 1, r,
                [Log (''error: couldn'' @ [CHR 0x27] @
                      ''t find valid public http port for container '' @ Id' c)])
           | Some port \<Rightarrow>
               (case forEach cfg ?P ?E after [] of
                  Inl cid \<Rightarrow>
                    (Exit 1, r,
                     [Log (''error: couldn'' @ [CHR 0x27] @
                           ''t find valid public http port for container '' @ cid)])
                | Inr t \<Rightarrow>
                    async_series
                      (g @ map (\<lambda>k. (k, hipacheBackend cfg @ '':'' @ toString port)) ?keys @ t)
                      r [])))"
    unfolding sync_def containerList_def reply.case forEach_around each [of "[]"]
    using ne by (simp split: sum.splits option.splits)
qed

theorem prefix_route_keys_witness:
  "sync DEFAULT_CONFIG \<lparr>db = [], fails = (\<lambda>q. None)\<rparr>
     (Ok [\<lparr>Id' = ''6f7e8d9c0b1a'', Image' = ''frozenridge/foo'', Status = ''Up 3 days'',
           Ports = [\<lparr>IP = ''0.0.0.0'', PrivatePort = 8080, PublicPort = 9001\<rparr>]\<rparr>,
          \<lparr>Id' = ''0a1b2c3d4e5f'', Image' = ''frozenridge/www:latest'', Status = ''Up 3 days'',
           Ports = [\<lparr>IP = ''0.0.0.0'', PrivatePort = 80, PublicPort = 9002\<rparr>]\<rparr>]) =
     (Returned,
      \<lparr>db = [(''frontend:foo.frozenridge.co'', [''foo.frozenridge.co'', ''http://127.0.0.1:9001'']),
              (''frontend:www.frozenridge.co'', [''www.frozenridge.co'', ''http://127.0.0.1:9002'']),
              (''frontend:frozenridge.co'', [''frozenridge.co'', ''http://127.0.0.1:9002''])],
       fails = (\<lambda>q. None)\<rparr>,
      [Log ''mapped foo.frozenridge.co to http://127.0.0.1:9001'',
       Log ''mapped www.frozenridge.co to http://127.0.0.1:9002'',
       Log ''mapped www.frozenridge.co to http://127.0.0.1:9002'',
       Log ''mapped frozenridge.co to http://127.0.0.1:9002'',
       Log ''hipache synced ok''])"
proof -
  let ?foo = "\<lparr>Id' = ''6f7e8d9c0b1a'', Image' = ''frozenridge/foo'', Status = ''Up 3 days'',
      Ports = [\<lparr>IP = ''0.0.0.0'', PrivatePort = 8080, PublicPort = 9001\<rparr>]\<rparr>"
  let ?www = "\<lparr>Id' = ''0a1b2c3d4e5f'', Image' = ''frozenridge/www:latest'', Status = ''Up 3 days'',
      Ports = [\<lparr>IP = ''0.0.0.0'', PrivatePort = 80, PublicPort = 9002\<rparr>]\<rparr>"
  let ?r = "\<lparr>db = [], fails = (\<lambda>q. None)\<rparr>"
  have pm: "parseMaps (prefixMaps DEFAULT_CONFIG) =
      [[''frozenridge'', ''frozenridge.co''], [''stridercd'', ''stridercd.com'']]"
    by (simp add: parseMaps_def DEFAULT_CONFIG_def)
  have em: "parseMaps (exceptionMaps DEFAULT_CONFIG) =
      [[''frozenridge/gitbackups'', ''gitbackups.com''],
       [''frozenridge/gitbackups'', ''www.gitbackups.com'']]"
    by (simp add: parseMaps_def DEFAULT_CONFIG_def)
  have p: "findHttpPorts DEFAULT_CONFIG [\<lparr>IP = ''0.0.0.0'', PrivatePort = 80, PublicPort = 9002\<rparr>] =
      Some 9002"
    "findHttpPorts DEFAULT_CONFIG [\<lparr>IP = ''0.0.0.0'', PrivatePort = 8080, PublicPort = 9001\<rparr>] =
      Some 9001"
    by (simp_all add: findHttpPorts_def DEFAULT_CONFIG_def toString.simps digit_def)
  have b: "hipacheBackend DEFAULT_CONFIG = ''http://127.0.0.1''"
    by (simp add: DEFAULT_CONFIG_def)
  have t: "toString 9002 = ''9002''" "toString 9001 = ''9001''"
    by (simp_all add: toString.simps digit_def)
  note foo = prefix_route_keys [where c = ?foo and prefix = "''frozenridge''" and sub = "''foo''"
      and tag = "[]" and cfg = DEFAULT_CONFIG and pre = "[]"
      and e = "[''frozenridge'', ''frozenridge.co'']" and post = "[[''stridercd'', ''stridercd.com'']]"
      and domain = "''frozenridge.co''" and f = "[]" and r = ?r and before = "[]" and after = "[]",
      THEN conjunct1, simplified pm em p b t, simplified]
  have before: "forEach DEFAULT_CONFIG (parseMaps (prefixMaps DEFAULT_CONFIG))
      (parseMaps (exceptionMaps DEFAULT_CONFIG)) [?foo] [] =
      Inr [(''foo.frozenridge.co'', ''http://127.0.0.1:9001'')]"
    using foo by (simp add: pm em p b t)
  note www = prefix_route_keys [where c = ?www and prefix = "''frozenridge''" and sub = "''www''"
      and tag = "'':latest''" and cfg = DEFAULT_CONFIG and pre = "[]"
      and e = "[''frozenridge'', ''frozenridge.co'']" and post = "[[''stridercd'', ''stridercd.com'']]"
      and domain = "''frozenridge.co''" and f = "[]" and r = ?r and before = "[?foo]" and after = "[]",
      THEN conjunct2, simplified pm em, simplified]
  have run: "sync DEFAULT_CONFIG ?r (Ok [?foo, ?www]) =
      async_series
        [(''foo.frozenridge.co'', ''http://127.0.0.1:9001''),
         (''www.frozenridge.co'', ''http://127.0.0.1:9002''),
         (''www.frozenridge.co'', ''http://127.0.0.1:9002''),
         (''frozenridge.co'', ''http://127.0.0.1:9002'')] ?r []"
    using www before by (simp add: pm em p b t)
  show ?thesis
    unfolding run
    by (simp add: route_multi_def storeKey_def del_def rpush_def lrange_all_def)
qed

text \<open>
  Claim C1 (the code departs from it). The default exception map holds two entries for
  \<open>frozenridge/gitbackups\<close>. The exception loop returns from the callback at the first
  of them, so a run of sync on that container alone writes the route for
  \<open>gitbackups.com\<close> and nothing for \<open>www.gitbackups.com\<close>, where the scan of all
  matching entries gives both keys.
\<close>

theorem exception_first_match_only:
  "sync DEFAULT_CONFIG \<lparr>db = [], fails = (\<lambda>q. None)\<rparr>
     (Ok [\<lparr>Id' = ''4fa6e0f0c678'', Image' = ''frozenridge/gitbackups:latest'',
           Status = ''Up 2 hours'',
           Ports = [\<lparr>IP = ''0.0.0.0'', PrivatePort = 80, PublicPort = 9003\<rparr>]\<rparr>]) =
     (Returned,
      \<lparr>db = [(''frontend:gitbackups.com'', [''gitbackups.com'', ''http://127.0.0.1:9003''])],
       fails = (\<lambda>q. None)\<rparr>,
      [Log ''mapped gitbackups.com to http://127.0.0.1:9003'', Log ''hipache synced ok'']) \<and>
   spec_exceptionKeys (parseMaps (exceptionMaps DEFAULT_CONFIG))
     (hd (split_on CHR '':'' ''frozenridge/gitbackups:latest'')) =
     [''gitbackups.com'', ''www.gitbackups.com'']"
  by (simp add: sync_def containerList_def eachContainer_def createRoute_def findHttpPorts_def
      parseMaps_def DEFAULT_CONFIG_def str_def toString.simps digit_def route_multi_def
      storeKey_def del_def rpush_def lrange_all_def spec_exceptionKeys_def)

section \<open>Fail-fast and the empty run\<close>

lemma forEach_quiet:
  "\<forall>x \<in> set cs. routeKeys P E x = [] \<or> findHttpPorts cfg (Ports x) \<noteq> None \<Longrightarrow>
     \<exists>g. forEach cfg P E cs f = Inr g"
proof (induction cs arbitrary: f)
  case Nil
  show ?case by simp
next
  case (Cons c cs)
  have "\<exists>f'. eachContainer cfg P E c f = Inr f'"
    using Cons.prems
    by (cases "findHttpPorts cfg (Ports c)") (auto simp: eachContainer_routeKeys)
  then obtain f' where "eachContainer cfg P E c f = Inr f'" by blast
  with Cons show ?case by simp
qed

lemma forEach_halts:
  assumes "\<forall>x \<in> set pre. routeKeys P E x = [] \<or> findHttpPorts cfg (Ports x) \<noteq> None"
    and "routeKeys P E c \<noteq> []" and "findHttpPorts cfg (Ports c) = None"
  shows "forEach cfg P E (pre @ c # post) f = Inl (Id' c)"
proof -
  from forEach_quiet [OF assms(1)] obtain g where "forEach cfg P E pre f = Inr g" by blast
  moreover have "eachContainer cfg P E c g = Inl (Id' c)"
    using assms(2,3) by (simp add: eachContainer_routeKeys)
  ultimately show ?thesis by (simp add: forEach_append)
qed

lemma sync_halts:
  assumes "res = pre @ c # post"
    and "\<forall>x \<in> set pre. routeKeys (parseMaps (prefixMaps cfg)) (parseMaps (exceptionMaps cfg)) x = [] \<or>
           findHttpPorts cfg (Ports x) \<noteq> None"
    and "routeKeys (parseMaps (prefixMaps cfg)) (parseMaps (exceptionMaps cfg)) c \<noteq> []"
    and "findHttpPorts cfg (Ports c) = None"
  shows "sync cfg r (Ok res) =
     (Exit 1, r,
      [Log (''error: couldn'' @ [CHR 0x27] @ ''t find valid public http port for container '' @ Id' c)])"
  unfolding assms(1) sync_def containerList_def
  by (simp add: forEach_halts [OF assms(2,3,4)])

text \<open>
  Claim C8. When the snapshot holds a container for which routing keys are derived and
  \<^verbatim>\<open>findHttpPorts\<close> finds no port, sync ends the process with status 1 at the first
  such container in snapshot order: the only output is the error line with that
  container's id, no later container is looked at and the store is untouched. The
  container reported is \<open>c\<close> itself when no such container stands before it.
\<close>

theorem sync_fails_fast_without_port:
  assumes "c \<in> set res"
    and "routeKeys (parseMaps (prefixMaps cfg)) (parseMaps (exceptionMaps cfg)) c \<noteq> []"
    and "findHttpPorts cfg (Ports c) = None"
  shows "(\<exists>pre c' post.
            res = pre @ c' # post \<and>
            (\<forall>x \<in> set pre.
               routeKeys (parseMaps (prefixMaps cfg)) (parseMaps (exceptionMaps cfg)) x = [] \<or>
               findHttpPorts cfg (Ports x) \<noteq> None) \<and>
            routeKeys (parseMaps (prefixMaps cfg)) (parseMaps (exceptionMaps cfg)) c' \<noteq> [] \<and>
            findHttpPorts cfg (Ports c') = None \<and>
            sync cfg r (Ok res) =
              (Exit 1, r,
               [Log (''error: couldn'' @ [CHR 0x27] @
                     ''t find valid public http port for container '' @ Id' c')])) \<and>
         ((\<forall>x \<in> set (takeWhile (\<lambda>x. x \<noteq> c) res).
              routeKeys (parseMaps (prefixMaps cfg)) (parseMaps (exceptionMaps cfg)) x = [] \<or>
              findHttpPorts cfg (Ports x) \<noteq> None) \<longrightarrow>
          sync cfg r (Ok res) =
            (Exit 1, r,
             [Log (''error: couldn'' @ [CHR 0x27] @
                   ''t find valid public http port for container '' @ Id' c)]))"
proof (intro conjI impI)
  let ?bad = "\<lambda>x. routeKeys (parseMaps (prefixMaps cfg)) (parseMaps (exceptionMaps cfg)) x \<noteq> [] \<and>
      findHttpPorts cfg (Ports x) = None"
  have "\<exists>x \<in> set res. ?bad x" using assms by blast
  then obtain pre c' post where d: "res = pre @ c' # post" "?bad c'" "\<forall>x \<in> set pre. \<not> ?bad x"
    by (auto dest!: split_list_first_prop)
  from d(3) have q: "\<forall>x \<in> set pre.
      routeKeys (parseMaps (prefixMaps cfg)) (parseMaps (exceptionMaps cfg)) x = [] \<or>
      findHttpPorts cfg (Ports x) \<noteq> None" by simp
  from sync_halts [OF d(1) q] d(2) have "sync cfg r (Ok res) =
     (Exit 1, r,
      [Log (''error: couldn'' @ [CHR 0x27] @ ''t find valid public http port for container '' @ Id' c')])"
    by blast
  with d(1,2) q show "\<exists>pre c' post.
            res = pre @ c' # post \<and>
            (\<forall>x \<in> set pre.
               routeKeys (parseMaps (prefixMaps cfg)) (parseMaps (exceptionMaps cfg)) x = [] \<or>
               findHttpPorts cfg (Ports x) \<noteq> None) \<and>
            routeKeys (parseMaps (prefixMaps cfg)) (parseMaps (exceptionMaps cfg)) c' \<noteq> [] \<and>
            findHttpPorts cfg (Ports c') = None \<and>
            sync cfg r (Ok res) =
              (Exit 1, r,
               [Log (''error: couldn'' @ [CHR 0x27] @
                     ''t find valid public http port for container '' @ Id' c')])"
    by blast
next
  assume first: "\<forall>x \<in> set (takeWhile (\<lambda>x. x \<noteq> c) res).
      routeKeys (parseMaps (prefixMaps cfg)) (parseMaps (exceptionMaps cfg)) x = [] \<or>
      findHttpPorts cfg (Ports x) \<noteq> None"
  from assms(1) have "res = takeWhile (\<lambda>x. x \<noteq> c) res @ c # tl (dropWhile (\<lambda>x. x \<noteq> c) res)"
    by (induction res) auto
  from sync_halts [OF this first assms(2,3)]
  show "sync cfg r (Ok res) =
            (Exit 1, r,
             [Log (''error: couldn'' @ [CHR 0x27] @
                   ''t find valid public http port for container '' @ Id' c)])" .
qed

theorem sync_fails_fast_without_port_witness:
  "sync DEFAULT_CONFIG \<lparr>db = [], fails = (\<lambda>q. None)\<rparr>
     (Ok [\<lparr>Id' = ''6f7e8d9c0b1a'', Image' = ''frozenridge/foo'', Status = ''Up 3 days'',
           Ports = [\<lparr>IP = ''0.0.0.0'', PrivatePort = 8080, PublicPort = 9001\<rparr>]\<rparr>,
          \<lparr>Id' = ''77aa88bb99cc'', Image' = ''stridercd/api:1.2'', Status = ''Up 1 hour'',
           Ports = [\<lparr>IP = '''', PrivatePort = 80, PublicPort = 0\<rparr>,
                    \<lparr>IP = ''0.0.0.0'', PrivatePort = 22, PublicPort = 2201\<rparr>]\<rparr>,
          \<lparr>Id' = ''0a1b2c3d4e5f'', Image' = ''frozenridge/www:latest'', Status = ''Up 3 days'',
           Ports = [\<lparr>IP = ''0.0.0.0'', PrivatePort = 80, PublicPort = 9002\<rparr>]\<rparr>]) =
     (Exit 1, \<lparr>db = [], fails = (\<lambda>q. None)\<rparr>,
      [Log (''error: couldn'' @ [CHR 0x27] @
            ''t find valid public http port for container 77aa88bb99cc'')])"
proof -
  let ?foo = "\<lparr>Id' = ''6f7e8d9c0b1a'', Image' = ''frozenridge/foo'', Status = ''Up 3 days'',
           Ports = [\<lparr>IP = ''0.0.0.0'', PrivatePort = 8080, PublicPort = 9001\<rparr>]\<rparr>"
  let ?api = "\<lparr>Id' = ''77aa88bb99cc'', Image' = ''stridercd/api:1.2'', Status = ''Up 1 hour'',
           Ports = [\<lparr>IP = '''', PrivatePort = 80, PublicPort = 0\<rparr>,
                    \<lparr>IP = ''0.0.0.0'', PrivatePort = 22, PublicPort = 2201\<rparr>]\<rparr>"
  let ?www = "\<lparr>Id' = ''0a1b2c3d4e5f'', Image' = ''frozenridge/www:latest'', Status = ''Up 3 days'',
           Ports = [\<lparr>IP = ''0.0.0.0'', PrivatePort = 80, PublicPort = 9002\<rparr>]\<rparr>"
  have pm: "parseMaps (prefixMaps DEFAULT_CONFIG) =
      [[''frozenridge'', ''frozenridge.co''], [''stridercd'', ''stridercd.com'']]"
    by (simp add: parseMaps_def DEFAULT_CONFIG_def)
  have em: "parseMaps (exceptionMaps DEFAULT_CONFIG) =
      [[''frozenridge/gitbackups'', ''gitbackups.com''],
       [''frozenridge/gitbackups'', ''www.gitbackups.com'']]"
    by (simp add: parseMaps_def DEFAULT_CONFIG_def)
  have k: "routeKeys (parseMaps (prefixMaps DEFAULT_CONFIG))
      (parseMaps (exceptionMaps DEFAULT_CONFIG)) ?api = [''api.stridercd.com'']"
    by (simp add: pm em routeKeys_def str_def)
  have p: "findHttpPorts DEFAULT_CONFIG (Ports ?api) = None"
    "findHttpPorts DEFAULT_CONFIG (Ports ?foo) = Some 9001"
    by (simp_all add: findHttpPorts_def DEFAULT_CONFIG_def toString.simps digit_def)
  have tw: "takeWhile (\<lambda>x. x \<noteq> ?api) [?foo, ?api, ?www] = [?foo]"
    by simp
  have "?api \<in> set [?foo, ?api, ?www]" by simp
  from sync_fails_fast_without_port [where c = ?api and res = "[?foo, ?api, ?www]"
      and cfg = DEFAULT_CONFIG and r = "\<lparr>db = [], fails = (\<lambda>q. None)\<rparr>",
      OF this, THEN conjunct2, THEN mp]
    k p tw
  show ?thesis by simp
qed

text \<open>
  Claim C10. When the \<^verbatim>\<open>forEach\<close> of sync leaves \<^verbatim>\<open>f\<close> empty, sync prints
  \<open>no running images found to sync. start some?\<close> and calls \<^verbatim>\<open>process.exit(0)\<close>:
  a command line that starts with sync ends there with status 0, whatever commands
  follow, with no further output and the store untouched.
\<close>

theorem nothing_to_sync_exits_process:
  assumes "forEach cfg (parseMaps (prefixMaps cfg)) (parseMaps (exceptionMaps cfg)) res [] = Inr []"
    and "docker 0 = Ok res"
  shows "sync cfg r (Ok res) =
           (Exit 0, r, [Log ''no running images found to sync. start some?'']) \<and>
         main cfg (''sync'' # rest) docker r =
           (Exit 0, r, [Log ''no running images found to sync. start some?''])"
  using assms by (simp add: main_def sync_def containerList_def)

theorem nothing_to_sync_exits_process_witness:
  "main DEFAULT_CONFIG [''sync'', ''show'']
     (\<lambda>n. Ok [\<lparr>Id' = ''c0ffee000001'', Image' = ''ubuntu:12.04'', Status = ''Up 5 minutes'',
                Ports = []\<rparr>,
               \<lparr>Id' = ''c0ffee000002'', Image' = ''acme/api'', Status = ''Up 5 minutes'',
                Ports = [\<lparr>IP = ''0.0.0.0'', PrivatePort = 80, PublicPort = 9005\<rparr>]\<rparr>])
     \<lparr>db = [(''frontend:old.frozenridge.co'', [''old.frozenridge.co'', ''http://127.0.0.1:9000''])],
      fails = (\<lambda>q. None)\<rparr> =
     (Exit 0,
      \<lparr>db = [(''frontend:old.frozenridge.co'', [''old.frozenridge.co'', ''http://127.0.0.1:9000''])],
       fails = (\<lambda>q. None)\<rparr>,
      [Log ''no running images found to sync. start some?''])"
proof -
  let ?res = "[\<lparr>Id' = ''c0ffee000001'', Image' = ''ubuntu:12.04'', Status = ''Up 5 minutes'',
                Ports = []\<rparr>,
               \<lparr>Id' = ''c0ffee000002'', Image' = ''acme/api'', Status = ''Up 5 minutes'',
                Ports = [\<lparr>IP = ''0.0.0.0'', PrivatePort = 80, PublicPort = 9005\<rparr>]\<rparr>]"
  have f: "forEach DEFAULT_CONFIG (parseMaps (prefixMaps DEFAULT_CONFIG))
      (parseMaps (exceptionMaps DEFAULT_CONFIG)) ?res [] = Inr []"
    by (simp add: parseMaps_def DEFAULT_CONFIG_def eachContainer_def)
  from nothing_to_sync_exits_process [where cfg = DEFAULT_CONFIG and res = ?res
      and docker = "\<lambda>n. Ok ?res" and rest = "[''show'']", OF f refl, THEN conjunct2]
  show ?thesis .
qed


section \<open>Writing routes\<close>

lemma update_absent: "k \<notin> fst ` set al \<Longrightarrow> AList.update k v al = al @ [(k, v)]"
  by (induction al) auto

lemma update_last: "k \<notin> fst ` set al \<Longrightarrow> AList.update k v (al @ [(k, w)]) = al @ [(k, v)]"
  by (induction al) auto

lemma map_of_absent: "k \<notin> fst ` set al \<Longrightarrow> map_of al k = None"
  by (simp add: map_of_eq_None_iff)

lemma lrange_all_absent: "k \<notin> fst ` set al \<Longrightarrow> lrange_all k al = []"
  by (simp add: lrange_all_def map_of_absent)

lemma lrange_all_last: "k \<notin> fst ` set al \<Longrightarrow> lrange_all k (al @ [(k, w)]) = w"
  by (induction al) (auto simp: lrange_all_def)

lemma del_absent: "key \<notin> fst ` set (del key d)"
  by (simp add: del_def delete_notin_dom)

lemma route_write:
  "rpush key b (rpush key a (del key d)) = del key d @ [(key, [a, b])]"
proof -
  have 1: "rpush key a (del key d) = del key d @ [(key, [a])]"
    using del_absent [of key d]
    by (simp add: rpush_def lrange_all_absent update_absent)
  have 2: "rpush key b (del key d @ [(key, [a])]) = del key d @ [(key, [a, b])]"
    using del_absent [of key d]
    by (simp add: rpush_def lrange_all_last update_last)
  from 1 2 show ?thesis by simp
qed

lemma route_multi_Ok:
  "route_multi r k backend = Ok r' \<longleftrightarrow>
     fails r (RouteTxn (storeKey k)) = None \<and>
     r' = r\<lparr>db := del (storeKey k) (db r) @ [(storeKey k, [k, backend])]\<rparr>"
  by (auto simp: route_multi_def route_write split: option.splits)

text \<open>
  Claim C6. After the transaction of \<^verbatim>\<open>createRoute\<close> for routing key \<open>K\<close> and
  backend \<open>B\<close> has run, whatever the store held before, reading the list at
  \<open>frontend:K\<close> gives exactly \<open>[K, B]\<close>; so the first element of the entry is the
  store key without its \<open>frontend:\<close> prefix.
\<close>

theorem route_round_trip:
  assumes "route_multi r K B = Ok r'" and "fails r (Lrange (''frontend:'' @ K)) = None"
  shows "lrange r' (''frontend:'' @ K) = Ok [K, B] \<and>
         (\<exists>entry. lrange r' (''frontend:'' @ K) = Ok entry \<and>
            hd entry = drop (length ''frontend:'') (''frontend:'' @ K))"
proof -
  from assms(1) have r': "r' = r\<lparr>db := del (storeKey K) (db r) @ [(storeKey K, [K, B])]\<rparr>"
    by (simp add: route_multi_Ok)
  have "lrange_all (storeKey K) (db r') = [K, B]"
    unfolding r' using del_absent [of "storeKey K" "db r"]
    by (simp add: lrange_all_last)
  moreover have "fails r' = fails r" unfolding r' by simp
  ultimately have "lrange r' (storeKey K) = Ok [K, B]"
    using assms(2) by (simp add: lrange_def storeKey_def)
  then have "lrange r' (''frontend:'' @ K) = Ok [K, B]"
    by (simp add: storeKey_def)
  then show ?thesis by simp
qed

theorem route_round_trip_witness:
  "route_multi
     \<lparr>db = [(''frontend:foo.frozenridge.co'', [''stale'', ''http://10.0.0.9:1'', ''extra'']),
             (''frontend:bar.frozenridge.co'', [''bar.frozenridge.co'', ''http://127.0.0.1:9004''])],
      fails = (\<lambda>q. None)\<rparr> ''foo.frozenridge.co'' ''http://127.0.0.1:9001'' =
     Ok \<lparr>db = [(''frontend:bar.frozenridge.co'', [''bar.frozenridge.co'', ''http://127.0.0.1:9004'']),
                (''frontend:foo.frozenridge.co'', [''foo.frozenridge.co'', ''http://127.0.0.1:9001''])],
         fails = (\<lambda>q. None)\<rparr> \<and>
   lrange
     \<lparr>db = [(''frontend:bar.frozenridge.co'', [''bar.frozenridge.co'', ''http://127.0.0.1:9004'']),
             (''frontend:foo.frozenridge.co'', [''foo.frozenridge.co'', ''http://127.0.0.1:9001''])],
      fails = (\<lambda>q. None)\<rparr> ''frontend:foo.frozenridge.co'' =
     Ok [''foo.frozenridge.co'', ''http://127.0.0.1:9001'']"
proof -
  let ?r = "\<lparr>db = [(''frontend:foo.frozenridge.co'', [''stale'', ''http://10.0.0.9:1'', ''extra'']),
                    (''frontend:bar.frozenridge.co'', [''bar.frozenridge.co'', ''http://127.0.0.1:9004''])],
             fails = (\<lambda>q. None)\<rparr>"
  let ?r' = "\<lparr>db = [(''frontend:bar.frozenridge.co'', [''bar.frozenridge.co'', ''http://127.0.0.1:9004'']),
             (''frontend:foo.frozenridge.co'', [''foo.frozenridge.co'', ''http://127.0.0.1:9001''])],
      fails = (\<lambda>q. None)\<rparr>"
  have w: "route_multi ?r ''foo.frozenridge.co'' ''http://127.0.0.1:9001'' = Ok ?r'"
    by (simp add: route_multi_def storeKey_def del_def rpush_def lrange_all_def)
  have "fails ?r (Lrange (''frontend:'' @ ''foo.frozenridge.co'')) = None" by simp
  from route_round_trip [OF w this, THEN conjunct1] w show ?thesis by simp
qed

lemma written_Nil: "written [] d = d"
  by (simp add: written_def)

lemma written_Cons:
  "written (w # ws) d = written ws (del (storeKey (fst w)) d @ [(storeKey (fst w), [fst w, snd w])])"
  by (simp add: written_def)

lemma del_filter: "del key d = filter (\<lambda>e. fst e \<noteq> key) d"
  by (induction d) (auto simp: del_def)

lemma written_split:
  "written ws d = filter (\<lambda>e. fst e \<notin> (\<lambda>w. storeKey (fst w)) ` set ws) d @ written ws []"
proof (induction ws arbitrary: d)
  case Nil
  show ?case by (simp add: written_Nil)
next
  case (Cons w ws)
  let ?K = "(\<lambda>w. storeKey (fst w)) ` set ws"
  let ?fk = "storeKey (fst w)"
  let ?entry = "(?fk, [fst w, snd w])"
  have "written (w # ws) d = written ws (del ?fk d @ [?entry])"
    by (simp add: written_Cons)
  also have "\<dots> = filter (\<lambda>e. fst e \<notin> ?K) (del ?fk d @ [?entry]) @ written ws []"
    by (rule Cons.IH)
  also have "\<dots> = filter (\<lambda>e. fst e \<notin> ?K) (del ?fk d) @
      (filter (\<lambda>e. fst e \<notin> ?K) [?entry] @ written ws [])"
    by simp
  also have "filter (\<lambda>e. fst e \<notin> ?K) [?entry] @ written ws [] = written ws [?entry]"
    by (rule Cons.IH [symmetric])
  also have "written ws [?entry] = written (w # ws) []"
    by (simp add: written_Cons del_def)
  also have "filter (\<lambda>e. fst e \<notin> ?K) (del ?fk d) =
      filter (\<lambda>e. fst e \<notin> (\<lambda>w. storeKey (fst w)) ` set (w # ws)) d"
    by (simp add: del_filter conj_commute)
  finally show ?case .
qed

lemma written_keys:
  "fst ` set (written ws d) \<subseteq> fst ` set d \<union> (\<lambda>w. storeKey (fst w)) ` set ws"
proof (induction ws arbitrary: d)
  case Nil
  show ?case by (simp add: written_Nil)
next
  case (Cons w ws)
  have "fst ` set (del (storeKey (fst w)) d) \<subseteq> fst ` set d"
    by (auto simp: del_filter)
  with Cons.IH [of "del (storeKey (fst w)) d @ [(storeKey (fst w), [fst w, snd w])]"]
  show ?case by (auto simp: written_Cons)
qed

lemma written_twice: "written ws (written ws d) = written ws d"
proof -
  let ?out = "\<lambda>e. fst e \<notin> (\<lambda>w. storeKey (fst w)) ` set ws"
  have "filter ?out (written ws []) = []"
    using written_keys [of ws "[]"] by (auto simp: filter_empty_conv)
  moreover have "filter ?out (written ws d) = filter ?out (filter ?out d @ written ws [])"
    using written_split [of ws d] by simp
  ultimately have "filter ?out (written ws d) = filter ?out d"
    by simp
  moreover have "written ws (written ws d) = filter ?out (written ws d) @ written ws []"
    by (rule written_split)
  ultimately have "written ws (written ws d) = filter ?out d @ written ws []"
    by simp
  then show ?thesis using written_split [of ws d] by simp
qed

lemma async_series_store:
  "fst (snd (async_series f r out)) =
     r\<lparr>db := written (takeWhile (\<lambda>w. fails r (RouteTxn (storeKey (fst w))) = None) f) (db r)\<rparr>"
proof (induction f arbitrary: r out)
  case Nil
  show ?case by (simp add: written_Nil)
next
  case (Cons w f)
  obtain k b where w: "w = (k, b)" by (cases w)
  show ?case
  proof (cases "fails r (RouteTxn (storeKey k))")
    case (Some err)
    then show ?thesis by (simp add: w route_multi_def written_Nil)
  next
    case None
    let ?r' = "r\<lparr>db := del (storeKey k) (db r) @ [(storeKey k, [k, b])]\<rparr>"
    have "route_multi r k b = Ok ?r'" using None by (simp add: route_multi_Ok)
    then show ?thesis
      using None by (simp add: w Cons.IH written_Cons)
  qed
qed

lemma async_series_error:
  "\<exists>w \<in> set f. fails r (RouteTxn (storeKey (fst w))) \<noteq> None \<Longrightarrow>
     fst (async_series f r out) = Exit 1"
proof (induction f arbitrary: r out)
  case Nil
  then show ?case by simp
next
  case (Cons w f)
  obtain k b where w: "w = (k, b)" by (cases w)
  show ?case
  proof (cases "fails r (RouteTxn (storeKey k))")
    case (Some err)
    then show ?thesis by (simp add: w route_multi_def)
  next
    case None
    let ?r' = "r\<lparr>db := del (storeKey k) (db r) @ [(storeKey k, [k, b])]\<rparr>"
    have step: "route_multi r k b = Ok ?r'" using None by (simp add: route_multi_Ok)
    from Cons.prems None have "\<exists>w \<in> set f. fails ?r' (RouteTxn (storeKey (fst w))) \<noteq> None"
      by (auto simp: w)
    from Cons.IH [OF this] step show ?thesis by (simp add: w)
  qed
qed

text \<open>
  Claim C7. Running sync again on the store the first run left, with the same listing
  and the same requests failing (none, in particular), leaves the store exactly as the
  first run left it, keys in the same order; this holds however the first run ended.
\<close>

theorem sync_idempotent:
  "fst (snd (sync cfg (fst (snd (sync cfg r docker))) docker)) = fst (snd (sync cfg r docker))"
proof (cases docker)
  case (Err err)
  then show ?thesis by (simp add: sync_def containerList_def)
next
  case (Ok res)
  show ?thesis
  proof (cases "forEach cfg (parseMaps (prefixMaps cfg)) (parseMaps (exceptionMaps cfg)) res []")
    case (Inl cid)
    with Ok show ?thesis by (simp add: sync_def containerList_def)
  next
    case (Inr f)
    show ?thesis
    proof (cases "f = []")
      case True
      with Ok Inr show ?thesis by (simp add: sync_def containerList_def)
    next
      case False
      have run: "\<And>s. sync cfg s docker = async_series f s []"
        using Ok Inr False by (simp add: sync_def containerList_def)
      show ?thesis
        by (simp add: run async_series_store written_twice)
    qed
  qed
qed

theorem sync_idempotent_witness:
  "fst (snd (sync DEFAULT_CONFIG
       \<lparr>db = [(''frontend:old.frozenridge.co'', [''old.frozenridge.co'', ''http://127.0.0.1:9000'']),
               (''frontend:www.frozenridge.co'', [''stale'']),
               (''frontend:frozenridge.co'', [''frozenridge.co'', ''http://127.0.0.1:9002''])],
        fails = (\<lambda>q. None)\<rparr>
       (Ok [\<lparr>Id' = ''0a1b2c3d4e5f'', Image' = ''frozenridge/www:latest'', Status = ''Up 3 days'',
             Ports = [\<lparr>IP = ''0.0.0.0'', PrivatePort = 80, PublicPort = 9002\<rparr>]\<rparr>]))) =
     \<lparr>db = [(''frontend:old.frozenridge.co'', [''old.frozenridge.co'', ''http://127.0.0.1:9000'']),
             (''frontend:www.frozenridge.co'', [''www.frozenridge.co'', ''http://127.0.0.1:9002'']),
             (''frontend:frozenridge.co'', [''frozenridge.co'', ''http://127.0.0.1:9002''])],
      fails = (\<lambda>q. None)\<rparr> \<and>
   fst (snd (sync DEFAULT_CONFIG
       \<lparr>db = [(''frontend:old.frozenridge.co'', [''old.frozenridge.co'', ''http://127.0.0.1:9000'']),
               (''frontend:www.frozenridge.co'', [''www.frozenridge.co'', ''http://127.0.0.1:9002'']),
               (''frontend:frozenridge.co'', [''frozenridge.co'', ''http://127.0.0.1:9002''])],
        fails = (\<lambda>q. None)\<rparr>
       (Ok [\<lparr>Id' = ''0a1b2c3d4e5f'', Image' = ''frozenridge/www:latest'', Status = ''Up 3 days'',
             Ports = [\<lparr>IP = ''0.0.0.0'', PrivatePort = 80, PublicPort = 9002\<rparr>]\<rparr>]))) =
     \<lparr>db = [(''frontend:old.frozenridge.co'', [''old.frozenridge.co'', ''http://127.0.0.1:9000'']),
             (''frontend:www.frozenridge.co'', [''www.frozenridge.co'', ''http://127.0.0.1:9002'']),
             (''frontend:frozenridge.co'', [''frozenridge.co'', ''http://127.0.0.1:9002''])],
      fails = (\<lambda>q. None)\<rparr>"
proof -
  let ?www = "\<lparr>Id' = ''0a1b2c3d4e5f'', Image' = ''frozenridge/www:latest'', Status = ''Up 3 days'',
             Ports = [\<lparr>IP = ''0.0.0.0'', PrivatePort = 80, PublicPort = 9002\<rparr>]\<rparr>"
  let ?r0 = "\<lparr>db = [(''frontend:old.frozenridge.co'', [''old.frozenridge.co'', ''http://127.0.0.1:9000'']),
               (''frontend:www.frozenridge.co'', [''stale'']),
               (''frontend:frozenridge.co'', [''frozenridge.co'', ''http://127.0.0.1:9002''])],
        fails = (\<lambda>q. None)\<rparr>"
  let ?r1 = "\<lparr>db = [(''frontend:old.frozenridge.co'', [''old.frozenridge.co'', ''http://127.0.0.1:9000'']),
             (''frontend:www.frozenridge.co'', [''www.frozenridge.co'', ''http://127.0.0.1:9002'']),
             (''frontend:frozenridge.co'', [''frozenridge.co'', ''http://127.0.0.1:9002''])],
      fails = (\<lambda>q. None)\<rparr>"
  have f: "forEach DEFAULT_CONFIG (parseMaps (prefixMaps DEFAULT_CONFIG))
      (parseMaps (exceptionMaps DEFAULT_CONFIG)) [?www] [] =
      Inr [(''www.frozenridge.co'', ''http://127.0.0.1:9002''),
           (''www.frozenridge.co'', ''http://127.0.0.1:9002''),
           (''frozenridge.co'', ''http://127.0.0.1:9002'')]"
    by (simp add: parseMaps_def DEFAULT_CONFIG_def eachContainer_def createRoute_def
        findHttpPorts_def str_def toString.simps digit_def Let_def)
  have first: "fst (snd (sync DEFAULT_CONFIG ?r0 (Ok [?www]))) = ?r1"
    unfolding sync_def containerList_def reply.case f
    by (simp add: route_multi_def storeKey_def del_def rpush_def lrange_all_def)
  from sync_idempotent [of DEFAULT_CONFIG ?r0 "Ok [?www]"] first
  have "fst (snd (sync DEFAULT_CONFIG ?r1 (Ok [?www]))) = ?r1" by simp
  with first show ?thesis by (rule conjI)
qed

section \<open>The live-container index and the status table\<close>

lemma lookupContainers_loop_find:
  "lookupContainers_loop wp ps =
     map_option PublicPort (find (\<lambda>p. IP p \<noteq> '''' \<and> toString (PrivatePort p) \<in> set wp) ps)"
  by (induction ps) auto

lemma loops_agree:
  "\<forall>p \<in> set ps. toString (PrivatePort p) \<in> set wp \<longrightarrow> (IP p \<noteq> '''') = (PublicPort p \<noteq> 0) \<Longrightarrow>
     lookupContainers_loop wp ps = findHttpPorts_loop wp ps"
  by (induction ps) auto


text \<open>
  Claim C3 (the code departs from it). \<^verbatim>\<open>lookupContainers\<close> tests
  \<^verbatim>\<open>p.IP !== ''\<close> where \<^verbatim>\<open>findHttpPorts\<close> tests \<^verbatim>\<open>p.PublicPort !== 0\<close>. For a
  running container whose web binding has an empty bind address and public port 9001,
  sync selects port 9001 and writes the route, but show indexes no port for the
  container and prints the route as \<open>! Down !\<close>. The other way round, a web binding
  with a bind address and public port 0 is indexed under port 0 though
  \<^verbatim>\<open>findHttpPorts\<close> rejects it.
\<close>

theorem show_reports_live_route_down:
  "findHttpPorts DEFAULT_CONFIG [\<lparr>IP = '''', PrivatePort = 8080, PublicPort = 9001\<rparr>] = Some 9001 \<and>
   indexedPort DEFAULT_CONFIG [\<lparr>IP = '''', PrivatePort = 8080, PublicPort = 9001\<rparr>] = None \<and>
   sync DEFAULT_CONFIG \<lparr>db = [], fails = (\<lambda>q. None)\<rparr>
     (Ok [\<lparr>Id' = ''6f7e8d9c0b1a'', Image' = ''frozenridge/foo'', Status = ''Up 3 days'',
           Ports = [\<lparr>IP = '''', PrivatePort = 8080, PublicPort = 9001\<rparr>]\<rparr>]) =
     (Returned,
      \<lparr>db = [(''frontend:foo.frozenridge.co'', [''foo.frozenridge.co'', ''http://127.0.0.1:9001''])],
       fails = (\<lambda>q. None)\<rparr>,
      [Log ''mapped foo.frozenridge.co to http://127.0.0.1:9001'', Log ''hipache synced ok'']) \<and>
   show' DEFAULT_CONFIG
     \<lparr>db = [(''frontend:foo.frozenridge.co'', [''foo.frozenridge.co'', ''http://127.0.0.1:9001''])],
      fails = (\<lambda>q. None)\<rparr>
     (Ok [\<lparr>Id' = ''6f7e8d9c0b1a'', Image' = ''frozenridge/foo'', Status = ''Up 3 days'',
           Ports = [\<lparr>IP = '''', PrivatePort = 8080, PublicPort = 9001\<rparr>]\<rparr>]) =
     (Returned,
      [Table [''Route'', ''Forward'', ''Container'']
         [[Some ''frontend:foo.frozenridge.co'', Some ''http://127.0.0.1:9001'',
           Some ''! Down !'']]]) \<and>
   indexedPort DEFAULT_CONFIG [\<lparr>IP = ''0.0.0.0'', PrivatePort = 80, PublicPort = 0\<rparr>] = Some 0 \<and>
   findHttpPorts DEFAULT_CONFIG [\<lparr>IP = ''0.0.0.0'', PrivatePort = 80, PublicPort = 0\<rparr>] = None"
proof -
  let ?foo = "\<lparr>Id' = ''6f7e8d9c0b1a'', Image' = ''frozenridge/foo'', Status = ''Up 3 days'',
           Ports = [\<lparr>IP = '''', PrivatePort = 8080, PublicPort = 9001\<rparr>]\<rparr>"
  let ?r0 = "\<lparr>db = [], fails = (\<lambda>q. None)\<rparr>"
  let ?r1 = "\<lparr>db = [(''frontend:foo.frozenridge.co'', [''foo.frozenridge.co'', ''http://127.0.0.1:9001''])],
      fails = (\<lambda>q. None)\<rparr>"
  have sel: "findHttpPorts DEFAULT_CONFIG [\<lparr>IP = '''', PrivatePort = 8080, PublicPort = 9001\<rparr>] =
      Some 9001"
    by (simp add: findHttpPorts_def DEFAULT_CONFIG_def toString.simps digit_def)
  have ind: "indexedPort DEFAULT_CONFIG [\<lparr>IP = '''', PrivatePort = 8080, PublicPort = 9001\<rparr>] = None"
    by (simp add: indexedPort_def)
  have other: "indexedPort DEFAULT_CONFIG [\<lparr>IP = ''0.0.0.0'', PrivatePort = 80, PublicPort = 0\<rparr>] =
      Some 0"
    "findHttpPorts DEFAULT_CONFIG [\<lparr>IP = ''0.0.0.0'', PrivatePort = 80, PublicPort = 0\<rparr>] = None"
    by (simp_all add: indexedPort_def findHttpPorts_def DEFAULT_CONFIG_def toString.simps digit_def)
  have f: "forEach DEFAULT_CONFIG (parseMaps (prefixMaps DEFAULT_CONFIG))
      (parseMaps (exceptionMaps DEFAULT_CONFIG)) [?foo] [] =
      Inr [(''foo.frozenridge.co'', ''http://127.0.0.1:9001'')]"
    by (simp add: parseMaps_def DEFAULT_CONFIG_def eachContainer_def createRoute_def
        findHttpPorts_def str_def toString.simps digit_def Let_def)
  have run: "sync DEFAULT_CONFIG ?r0 (Ok [?foo]) =
     (Returned, ?r1,
      [Log ''mapped foo.frozenridge.co to http://127.0.0.1:9001'', Log ''hipache synced ok''])"
    unfolding sync_def containerList_def reply.case f
    by (simp add: route_multi_def storeKey_def del_def rpush_def lrange_all_def)
  have idx: "lookupContainers DEFAULT_CONFIG [?foo] = Map.empty"
    by (simp add: lookupContainers_def ind)
  have keys: "keys_multi ?r1 = Ok [''frontend:foo.frozenridge.co'']"
    by (simp add: keys_multi_def keys_all_def)
  have rd: "lrange ?r1 ''frontend:foo.frozenridge.co'' =
      Ok [''foo.frozenridge.co'', ''http://127.0.0.1:9001'']"
    by (simp add: lrange_def lrange_all_def)
  have seg: "split_on CHR '':'' ''http://127.0.0.1:9001'' = [''http'', ''//127.0.0.1'', ''9001'']"
    by simp
  have row: "lookupRoute_row Map.empty ''frontend:foo.frozenridge.co''
      [''foo.frozenridge.co'', ''http://127.0.0.1:9001''] =
      Some [Some ''frontend:foo.frozenridge.co'', Some ''http://127.0.0.1:9001'', Some ''! Down !'']"
    unfolding lookupRoute_row_def
    by (simp add: seg str_def numeral_2_eq_2 objectPrototypeKeys_def)
  have pr: "printable
      [[Some ''frontend:foo.frozenridge.co'', Some ''http://127.0.0.1:9001'', Some ''! Down !'']]"
    by (simp add: printable_def)
  have shown: "show' DEFAULT_CONFIG ?r1 (Ok [?foo]) =
     (Returned,
      [Table [''Route'', ''Forward'', ''Container'']
         [[Some ''frontend:foo.frozenridge.co'', Some ''http://127.0.0.1:9001'',
           Some ''! Down !'']]])"
    by (simp only: show'_def reply.case keys idx async_map.simps rd row option.case
        routes_head_def pr if_False if_True append_Nil)
  from sel ind run shown other show ?thesis by (intro conjI)
qed

lemma js_nth_short: "length res < 2 \<Longrightarrow> js_nth res (Suc 0) = None"
  by (cases res; cases "tl res") auto

lemma lookupRoute_row_short: "length res < 2 \<Longrightarrow> lookupRoute_row containers k res = None"
  by (simp add: lookupRoute_row_def js_nth_short)

lemma async_map_crash:
  assumes "fails r (Lrange k) = None" and "length (lrange_all k (db r)) < 2"
  shows "k \<in> set ks \<Longrightarrow> fst (async_map r containers ks routes called out) = Crash"
proof (induction ks arbitrary: routes called out)
  case Nil
  then show ?case by simp
next
  case (Cons k' ks)
  have here: "lrange r k = Ok (lrange_all k (db r))"
    using assms(1) by (simp add: lrange_def)
  show ?case
  proof (cases "lrange r k'")
    case (Err err)
    with here have "k' \<noteq> k" by auto
    with Cons.prems have "k \<in> set ks" by simp
    with Cons.IH Err show ?thesis by simp
  next
    case (Ok res)
    show ?thesis
    proof (cases "lookupRoute_row containers k' res")
      case None
      with Ok show ?thesis by simp
    next
      case (Some row)
      have "k' \<noteq> k"
      proof
        assume "k' = k"
        with Ok here have "res = lrange_all k (db r)" by simp
        with assms(2) have "lookupRoute_row containers k' res = None"
          by (simp add: lookupRoute_row_short)
        with Some show False by simp
      qed
      with Cons.prems have "k \<in> set ks" by simp
      with Cons.IH Ok Some show ?thesis by simp
    qed
  qed
qed

lemma async_map_crash_silent:
  assumes "\<forall>q. fails r q = None" and "length (lrange_all k (db r)) < 2"
  shows "k \<in> set ks \<Longrightarrow> async_map r containers ks routes False out = (Crash, out)"
proof (induction ks arbitrary: routes)
  case Nil
  then show ?case by simp
next
  case (Cons k' ks)
  have ok: "lrange r k' = Ok (lrange_all k' (db r))"
    using assms(1) by (simp add: lrange_def)
  show ?case
  proof (cases "lookupRoute_row containers k' (lrange_all k' (db r))")
    case None
    with ok show ?thesis by simp
  next
    case (Some row)
    with assms(2) have "k' \<noteq> k" by (auto simp: lookupRoute_row_short)
    with Cons.prems have "k \<in> set ks" by simp
    with Cons.IH ok Some show ?thesis by simp
  qed
qed

text \<open>
  Claim C9. When the key scan succeeds and some enumerated key reads, without an error,
  as a list of fewer than two elements, show ends in the TypeError of
  \<^verbatim>\<open>res[1].split\<close>: it never returns, through the exported function and through the
  command line alike, and when no request fails nothing at all is printed, so no row
  is emitted for that key.
\<close>

theorem show_short_entry_crashes:
  assumes "fails r KeysTxn = None" and "k \<in> set (keys_all (db r))"
    and "fails r (Lrange k) = None" and "length (lrange_all k (db r)) < 2"
  shows "fst (show' cfg r (Ok res)) = Crash \<and>
         fst (main cfg [''show''] (\<lambda>n. Ok res) r) = Crash \<and>
         ((\<forall>q. fails r q = None) \<longrightarrow> show' cfg r (Ok res) = (Crash, []))"
proof -
  have s: "show' cfg r (Ok res) =
      async_map r (lookupContainers cfg res) (keys_all (db r)) [] False []"
    using assms(1) by (simp add: show'_def keys_multi_def)
  have 1: "fst (show' cfg r (Ok res)) = Crash"
    unfolding s using assms(3,4,2) by (rule async_map_crash)
  have 2: "fst (main cfg [''show''] (\<lambda>n. Ok res) r) = Crash"
    using 1 by (cases "show' cfg r (Ok res)") (simp add: main_def)
  have 3: "(\<forall>q. fails r q = None) \<longrightarrow> show' cfg r (Ok res) = (Crash, [])"
    unfolding s using assms(4,2) by (auto intro: async_map_crash_silent)
  from 1 2 3 show ?thesis by blast
qed

theorem show_short_entry_crashes_witness:
  "show' DEFAULT_CONFIG
     \<lparr>db = [(''frontend:foo.frozenridge.co'', [''foo.frozenridge.co'', ''http://127.0.0.1:9001'']),
             (''frontend:half.frozenridge.co'', [''half.frozenridge.co''])],
      fails = (\<lambda>q. None)\<rparr>
     (Ok [\<lparr>Id' = ''6f7e8d9c0b1a'', Image' = ''frozenridge/foo'', Status = ''Up 3 days'',
           Ports = [\<lparr>IP = ''0.0.0.0'', PrivatePort = 8080, PublicPort = 9001\<rparr>]\<rparr>]) =
     (Crash, [])"
proof -
  let ?r = "\<lparr>db = [(''frontend:foo.frozenridge.co'', [''foo.frozenridge.co'', ''http://127.0.0.1:9001'']),
             (''frontend:half.frozenridge.co'', [''half.frozenridge.co''])],
      fails = (\<lambda>q. None)\<rparr>"
  have a: "fails ?r KeysTxn = None" "fails ?r (Lrange ''frontend:half.frozenridge.co'') = None"
    "\<forall>q. fails ?r q = None"
    by simp_all
  have b: "''frontend:half.frozenridge.co'' \<in> set (keys_all (db ?r))"
    by (simp add: keys_all_def)
  have c: "length (lrange_all ''frontend:half.frozenridge.co'' (db ?r)) < 2"
    by (simp add: lrange_all_def)
  from show_short_entry_crashes [OF a(1) b a(2) c] a(3) show ?thesis by blast
qed

text \<open>
  Claim C2 (the code departs from it). A store error in a deferred write ends sync with
  status 1, but \<^verbatim>\<open>done\<close> in show takes no error argument: when the read of the second
  of two route entries fails, show prints the table with the one row it has, calls its
  callback, and the process ends with status 0.
\<close>

theorem show_read_error_reports_success:
  "show' DEFAULT_CONFIG
     \<lparr>db = [(''frontend:foo.frozenridge.co'', [''foo.frozenridge.co'', ''http://127.0.0.1:9001'']),
             (''frontend:bar.frozenridge.co'', [''bar.frozenridge.co'', ''http://127.0.0.1:9004''])],
      fails = (\<lambda>q. if q = Lrange ''frontend:bar.frozenridge.co''
                     then Some ''Error: Redis connection gone'' else None)\<rparr>
     (Ok [\<lparr>Id' = ''6f7e8d9c0b1a'', Image' = ''frozenridge/foo'', Status = ''Up 3 days'',
           Ports = [\<lparr>IP = ''0.0.0.0'', PrivatePort = 8080, PublicPort = 9001\<rparr>]\<rparr>]) =
     (Returned,
      [Table [''Route'', ''Forward'', ''Container'']
         [[Some ''frontend:foo.frozenridge.co'', Some ''http://127.0.0.1:9001'',
           Some ''Up 3 days'']]]) \<and>
   fst (main DEFAULT_CONFIG [''show'']
     (\<lambda>n. Ok [\<lparr>Id' = ''6f7e8d9c0b1a'', Image' = ''frozenridge/foo'', Status = ''Up 3 days'',
           Ports = [\<lparr>IP = ''0.0.0.0'', PrivatePort = 8080, PublicPort = 9001\<rparr>]\<rparr>])
     \<lparr>db = [(''frontend:foo.frozenridge.co'', [''foo.frozenridge.co'', ''http://127.0.0.1:9001'']),
             (''frontend:bar.frozenridge.co'', [''bar.frozenridge.co'', ''http://127.0.0.1:9004''])],
      fails = (\<lambda>q. if q = Lrange ''frontend:bar.frozenridge.co''
                     then Some ''Error: Redis connection gone'' else None)\<rparr>) = Exit 0"
proof -
  let ?foo = "\<lparr>Id' = ''6f7e8d9c0b1a'', Image' = ''frozenridge/foo'', Status = ''Up 3 days'',
           Ports = [\<lparr>IP = ''0.0.0.0'', PrivatePort = 8080, PublicPort = 9001\<rparr>]\<rparr>"
  let ?r = "\<lparr>db = [(''frontend:foo.frozenridge.co'', [''foo.frozenridge.co'', ''http://127.0.0.1:9001'']),
             (''frontend:bar.frozenridge.co'', [''bar.frozenridge.co'', ''http://127.0.0.1:9004''])],
      fails = (\<lambda>q. if q = Lrange ''frontend:bar.frozenridge.co''
                     then Some ''Error: Redis connection gone'' else None)\<rparr>"
  have idx: "lookupContainers DEFAULT_CONFIG [?foo] = [''9001'' \<mapsto> ?foo]"
    by (simp add: lookupContainers_def indexedPort_def DEFAULT_CONFIG_def toString.simps digit_def)
  have keys: "keys_multi ?r = Ok [''frontend:foo.frozenridge.co'', ''frontend:bar.frozenridge.co'']"
    by (simp add: keys_multi_def keys_all_def)
  have foo: "lrange ?r ''frontend:foo.frozenridge.co'' =
      Ok [''foo.frozenridge.co'', ''http://127.0.0.1:9001'']"
    by (simp add: lrange_def lrange_all_def)
  have bar: "lrange ?r ''frontend:bar.frozenridge.co'' = Err ''Error: Redis connection gone''"
    by (simp add: lrange_def)
  have seg: "split_on CHR '':'' ''http://127.0.0.1:9001'' = [''http'', ''//127.0.0.1'', ''9001'']"
    by simp
  have row: "lookupRoute_row [''9001'' \<mapsto> ?foo] ''frontend:foo.frozenridge.co''
      [''foo.frozenridge.co'', ''http://127.0.0.1:9001''] =
      Some [Some ''frontend:foo.frozenridge.co'', Some ''http://127.0.0.1:9001'', Some ''Up 3 days'']"
    unfolding lookupRoute_row_def by (simp add: seg str_def numeral_2_eq_2)
  have pr: "printable
      [[Some ''frontend:foo.frozenridge.co'', Some ''http://127.0.0.1:9001'', Some ''Up 3 days'']]"
    by (simp add: printable_def)
  have s: "show' DEFAULT_CONFIG ?r (Ok [?foo]) =
     (Returned,
      [Table [''Route'', ''Forward'', ''Container'']
         [[Some ''frontend:foo.frozenridge.co'', Some ''http://127.0.0.1:9001'',
           Some ''Up 3 days'']]])"
    by (simp only: show'_def reply.case keys idx async_map.simps foo bar row option.case
        routes_head_def pr if_False if_True append_Nil)
  then have "fst (main DEFAULT_CONFIG [''show''] (\<lambda>n. Ok [?foo]) ?r) = Exit 0"
    by (simp add: main_def)
  with s show ?thesis by (rule conjI)
qed

end
